theory Spec2Isabelle
  imports Main "HOL-Library.Multiset"
begin

section \<open>The conversion graph of \<open>conversion_graph.hpp\<close>\<close>

subsection \<open>Vertex and edge properties\<close>

text \<open>
  \<^verbatim>\<open>struct CoordinateData { std::string coordinate_name; };\<close>
  \<^verbatim>\<open>struct EdgeData { std::string edge_label; matrix<double> conv_matrix; };\<close>
  The matrix type is kept abstract (\<open>'m\<close>): the functions below only store matrices,
  look them up and hand them to the matrix product.
\<close>

record CoordinateData =
  coordinate_name :: string

record 'm EdgeData =
  edge_label :: string
  conv_matrix :: 'm

subsection \<open>The adjacency list\<close>

text \<open>
  \<^verbatim>\<open>boost::adjacency_list<vecS, vecS, directedS, CoordinateData, EdgeData>\<close>:
  a vector of stored vertices, the vertex descriptor being the index; every stored
  vertex holds its property and the vector of its out-edges (target and edge property)
  in the order in which \<^verbatim>\<open>add_edge\<close> appended them. The library gives no meaning to a
  descriptor that is not an index of the vertex vector; \<open>convert\<close> never uses one, and
  in the model such a descriptor has no out-edges.
\<close>

type_synonym vertex_t = nat

type_synonym 'm graph_t = "(CoordinateData \<times> (vertex_t \<times> 'm EdgeData) list) list"

definition num_vertices :: "'m graph_t \<Rightarrow> nat" where
  "num_vertices G = length G"

definition vertices :: "'m graph_t \<Rightarrow> vertex_t list" where
  "vertices G = [0 ..< length G]"

definition vertex_property :: "'m graph_t \<Rightarrow> vertex_t \<Rightarrow> CoordinateData" where
  "vertex_property G v = fst (G ! v)"

definition out_edges :: "vertex_t \<Rightarrow> 'm graph_t \<Rightarrow> (vertex_t \<times> 'm EdgeData) list" where
  "out_edges u G = (if u < length G then snd (G ! u) else [])"

definition add_vertex :: "CoordinateData \<Rightarrow> 'm graph_t \<Rightarrow> vertex_t \<times> 'm graph_t" where
  "add_vertex p G = (length G, G @ [(p, [])])"

text \<open>
  With a \<^verbatim>\<open>vecS\<close> vertex list \<^verbatim>\<open>add_edge(u, v, p, g)\<close> first grows the vertex
  vector to hold \<open>max u v\<close> (new vertices get a default property), then appends the
  edge to the out-edge vector of \<open>u\<close>.
\<close>

definition add_edge :: "vertex_t \<Rightarrow> vertex_t \<Rightarrow> 'm EdgeData \<Rightarrow> 'm graph_t \<Rightarrow> 'm graph_t" where
  "add_edge u v p G =
     (let G' = G @ replicate (Suc (max u v) - length G) (\<lparr>coordinate_name = []\<rparr>, [])
      in G'[u := (fst (G' ! u), snd (G' ! u) @ [(v, p)])])"

text \<open>
  \<^verbatim>\<open>boost::edges(G)\<close> and \<^verbatim>\<open>boost::num_edges(G)\<close>: the directed edges as pairs of
  source and target, vertex by vertex.
\<close>

definition edges :: "'m graph_t \<Rightarrow> (vertex_t \<times> vertex_t) list" where
  "edges G = concat (map (\<lambda>u. map (\<lambda>e. (u, fst e)) (out_edges u G)) (vertices G))"

definition num_edges :: "'m graph_t \<Rightarrow> nat" where
  "num_edges G = length (edges G)"

text \<open>
  \<^verbatim>\<open>boost::edge(a, b, G)\<close> returns a pair of an edge descriptor and a flag; the
  descriptor is that of the first out-edge of \<open>a\<close> whose target is \<open>b\<close>, and the flag
  is false when there is none. The model returns the edge's property, or \<open>None\<close> for
  the false flag.
\<close>

definition edge :: "vertex_t \<Rightarrow> vertex_t \<Rightarrow> 'm graph_t \<Rightarrow> 'm EdgeData option" where
  "edge a b G = map_option snd (find (\<lambda>e. fst e = b) (out_edges a G))"

subsection \<open>The collaborators of \<open>utility.hpp\<close> and uBLAS\<close>

text \<open>
  The matrix builders (\<^verbatim>\<open>bac::ha_dec_horizon\<close> and the others), the column vector
  built from the two source angles and the uBLAS product \<^verbatim>\<open>prod\<close> are not part of the
  file that is verified; they are parameters of the model, gathered in one record.
  Each builder field stands for \<^verbatim>\<open>bac::<name><...>(angle).get()\<close>.
\<close>

record ('a, 'm) utility =
  column_vector :: "'a \<Rightarrow> 'a \<Rightarrow> 'm"
  ha_dec_horizon :: "'a \<Rightarrow> 'm"
  ha_dec_ra_dec :: "'a \<Rightarrow> 'm"
  ra_dec_to_ecliptic :: "'a \<Rightarrow> 'm"
  ecliptic_to_ra_dec :: "'a \<Rightarrow> 'm"
  ra_dec_to_galactic :: "'m"
  galactic_to_ra_dec :: "'m"
  prod_matrix :: "'m \<Rightarrow> 'm \<Rightarrow> 'm"

subsection \<open>The catalog built by every call of \<open>convert\<close>\<close>

definition graph_size :: nat where
  "graph_size = 5"

definition catalog :: "('a, 'm) utility \<Rightarrow> 'a \<Rightarrow> 'a \<Rightarrow> 'a \<Rightarrow> 'm graph_t" where
  "catalog U phi st obliquity =
     (let G = [];
          (vd0, G) = add_vertex \<lparr>coordinate_name = ''Horizon''\<rparr> G;
          (vd1, G) = add_vertex \<lparr>coordinate_name = ''Equatorial_HA_Dec''\<rparr> G;
          (vd2, G) = add_vertex \<lparr>coordinate_name = ''Equatorial_RA_Dec''\<rparr> G;
          (vd3, G) = add_vertex \<lparr>coordinate_name = ''Ecliptic''\<rparr> G;
          (vd4, G) = add_vertex \<lparr>coordinate_name = ''Galactic''\<rparr> G;
          G = add_edge vd1 vd0 \<lparr>edge_label = ''Equatorial HA Dec to Horizon'',
                conv_matrix = ha_dec_horizon U phi\<rparr> G;
          G = add_edge vd0 vd1 \<lparr>edge_label = ''Horizon to Equatorial HA Dec'',
                conv_matrix = ha_dec_horizon U phi\<rparr> G;
          G = add_edge vd1 vd2 \<lparr>edge_label = ''Equatorial HA Dec to Equatorial RA Dec'',
                conv_matrix = ha_dec_ra_dec U st\<rparr> G;
          G = add_edge vd2 vd1 \<lparr>edge_label = ''Equatorial RA Dec to Equatorial HA Dec'',
                conv_matrix = ha_dec_ra_dec U st\<rparr> G;
          G = add_edge vd2 vd3 \<lparr>edge_label = ''Equatorial RA Dec to Ecliptic'',
                conv_matrix = ra_dec_to_ecliptic U obliquity\<rparr> G;
          G = add_edge vd3 vd2 \<lparr>edge_label = ''Ecliptic to Equatorial RA Dec'',
                conv_matrix = ecliptic_to_ra_dec U obliquity\<rparr> G;
          G = add_edge vd2 vd4 \<lparr>edge_label = ''Equatorial RA Dec to Galactic'',
                conv_matrix = ra_dec_to_galactic U\<rparr> G;
          G = add_edge vd4 vd2 \<lparr>edge_label = ''Galactic to Equatorial RA Dec'',
                conv_matrix = galactic_to_ra_dec U\<rparr> G
      in G)"

subsection \<open>Vertex resolution\<close>

text \<open>
  The two \<^verbatim>\<open>for\<close> loops over \<^verbatim>\<open>vertices(G)\<close>: the first vertex whose name equals the
  wanted one is taken (\<^verbatim>\<open>break\<close>); \<open>None\<close> stands for the flag \<^verbatim>\<open>valid_src\<close>
  (\<^verbatim>\<open>valid_dest\<close>) left false.
\<close>

fun find_vertex :: "'m graph_t \<Rightarrow> string \<Rightarrow> vertex_t list \<Rightarrow> vertex_t option" where
  "find_vertex G name [] = None"
| "find_vertex G name (v # vs) =
     (if name = coordinate_name (vertex_property G v) then Some v
      else find_vertex G name vs)"

subsection \<open>Breadth-first search with a predecessor recorder\<close>

text \<open>
  \<^verbatim>\<open>boost::breadth_first_search\<close> with the visitor
  \<^verbatim>\<open>record_predecessors(predecessors.begin(), on_tree_edge{})\<close>. All vertices start
  white; the source is coloured gray and put in the queue. While the queue is not empty
  its front vertex \<open>u\<close> is taken out and the out-edges of \<open>u\<close> are examined in their
  stored order: an edge to a white target \<open>v\<close> is a tree edge, on which the visitor
  writes \<open>predecessors[v] = u\<close>, and \<open>v\<close> becomes gray and joins the back of the queue;
  other edges are left alone. Then \<open>u\<close> becomes black. The colour map has one entry
  for each vertex and the targets of the edges are vertices of the graph, which the test
  \<open>v < length (color s)\<close> of the model writes out.
\<close>

datatype default_color_type = White | Gray | Black

record bfs_state =
  color :: "default_color_type list"
  queue :: "vertex_t list"
  predecessors :: "nat list"

definition examine_edge :: "vertex_t \<Rightarrow> bfs_state \<Rightarrow> vertex_t \<times> 'm EdgeData \<Rightarrow> bfs_state" where
  "examine_edge u s e =
     (let v = fst e in
      if v < length (color s) \<and> color s ! v = White
      then \<lparr>color = (color s)[v := Gray],
            queue = queue s @ [v],
            predecessors = (predecessors s)[v := u]\<rparr>
      else s)"

definition examine_vertex :: "'m graph_t \<Rightarrow> bfs_state \<Rightarrow> vertex_t \<Rightarrow> vertex_t list \<Rightarrow> bfs_state" where
  "examine_vertex G s u q =
     (let s' = foldl (examine_edge u) (s\<lparr>queue := q\<rparr>) (out_edges u G)
      in s'\<lparr>color := (color s')[u := Black]\<rparr>)"

definition white_count :: "bfs_state \<Rightarrow> nat" where
  "white_count s = length (filter (\<lambda>c. c = White) (color s))"

lemma white_count_update_le:
  "c \<noteq> White \<Longrightarrow> length (filter (\<lambda>c. c = White) (cs[i := c])) \<le> length (filter (\<lambda>c. c = White) cs)"
proof (induction cs arbitrary: i)
  case Nil
  then show ?case by simp
next
  case (Cons x cs)
  then show ?case by (cases i) (auto intro: le_SucI)
qed

lemma white_count_update_less:
  "i < length cs \<Longrightarrow> cs ! i = White \<Longrightarrow> c \<noteq> White \<Longrightarrow>
   Suc (length (filter (\<lambda>c. c = White) (cs[i := c]))) = length (filter (\<lambda>c. c = White) cs)"
proof (induction cs arbitrary: i)
  case Nil
  then show ?case by simp
next
  case (Cons x cs)
  then show ?case by (cases i) auto
qed

lemma examine_edge_measure:
  "2 * white_count (examine_edge u s e) + length (queue (examine_edge u s e))
     \<le> 2 * white_count s + length (queue s)"
  using white_count_update_less [of "fst e" "color s" Gray]
  by (auto simp: examine_edge_def white_count_def Let_def)

lemma foldl_examine_edge_measure:
  "2 * white_count (foldl (examine_edge u) s es) + length (queue (foldl (examine_edge u) s es))
     \<le> 2 * white_count s + length (queue s)"
proof (induction es arbitrary: s)
  case Nil
  then show ?case by simp
next
  case (Cons e es)
  show ?case
    using Cons.IH [of "examine_edge u s e"] examine_edge_measure [of u s e]
    by simp
qed

lemma examine_vertex_measure:
  "2 * white_count (examine_vertex G s u q) + length (queue (examine_vertex G s u q))
     \<le> 2 * white_count s + length q"
proof -
  let ?s' = "foldl (examine_edge u) (s\<lparr>queue := q\<rparr>) (out_edges u G)"
  have "white_count (examine_vertex G s u q) \<le> white_count ?s'"
    using white_count_update_le [of Black "color ?s'" u]
    by (simp add: examine_vertex_def white_count_def Let_def)
  moreover have "length (queue (examine_vertex G s u q)) = length (queue ?s')"
    by (simp add: examine_vertex_def Let_def)
  moreover have "2 * white_count ?s' + length (queue ?s') \<le> 2 * white_count s + length q"
    using foldl_examine_edge_measure [of u "s\<lparr>queue := q\<rparr>" "out_edges u G"]
    by (simp add: white_count_def)
  ultimately show ?thesis by linarith
qed

function breadth_first_visit :: "'m graph_t \<Rightarrow> bfs_state \<Rightarrow> bfs_state" where
  "breadth_first_visit G s =
     (case queue s of
        [] \<Rightarrow> s
      | u # q \<Rightarrow> breadth_first_visit G (examine_vertex G s u q))"
  by pat_completeness auto
termination
proof (relation "measure (\<lambda>(G, s). 2 * white_count s + length (queue s))")
  show "wf (measure (\<lambda>(G :: 'm graph_t, s). 2 * white_count s + length (queue s)))"
    by simp
next
  fix G :: "'m graph_t" and s :: bfs_state and u q
  assume "queue s = u # q"
  then show "((G, examine_vertex G s u q), (G, s))
      \<in> measure (\<lambda>(G, s). 2 * white_count s + length (queue s))"
    using examine_vertex_measure [of G s u q] by simp
qed

definition breadth_first_search_state :: "'m graph_t \<Rightarrow> vertex_t \<Rightarrow> nat list \<Rightarrow> bfs_state" where
  "breadth_first_search_state G src_vertex preds =
     breadth_first_visit G
       \<lparr>color = (replicate (num_vertices G) White)[src_vertex := Gray],
        queue = [src_vertex],
        predecessors = preds\<rparr>"

definition breadth_first_search :: "'m graph_t \<Rightarrow> vertex_t \<Rightarrow> nat list \<Rightarrow> nat list" where
  "breadth_first_search G src_vertex preds =
     predecessors (breadth_first_search_state G src_vertex preds)"

subsection \<open>The backward walk over the predecessor array\<close>

text \<open>
  \<^verbatim>\<open>int p = dest_vertex;
  while (p != src_vertex) { store_path.push_back(p); p = predecessors[p]; }
  store_path.push_back(p);\<close>
  The loop has no bound of its own, so it is a partial function, which has a value
  wherever the test \<^verbatim>\<open>p != src_vertex\<close> fails after finitely many steps. Where it never
  fails the model has \<open>None\<close>, while the program leaves the loop when \<^verbatim>\<open>push_back\<close> can no
  longer allocate (\<^verbatim>\<open>std::bad_alloc\<close>); no property below is about such a walk: on the
  catalog every walk ends after at most three steps. The entries of the array are 0 or
  vertices of the graph, so every read is inside the array when the graph has at most
  \<open>graph_size\<close> vertices.
\<close>

partial_function (option) walk :: "nat list \<Rightarrow> vertex_t \<Rightarrow> nat \<Rightarrow> nat list \<Rightarrow> nat list option" where
  "walk preds src_vertex p store_path =
     (if p \<noteq> src_vertex
      then walk preds src_vertex (preds ! p) (store_path @ [p])
      else Some (store_path @ [p]))"

declare walk.simps [code]

subsection \<open>The multiplication loop\<close>

text \<open>
  \<^verbatim>\<open>for (auto it = store_path.rbegin(); it + 1 != store_path.rend(); ++it)
  { auto a = *it; auto b = *(it+1);
    ans = prod(G[boost::edge(a,b,G).first].conv_matrix, ans); }\<close>
  The list argument is \<open>store_path\<close> read from its back, as the reverse iterator reads
  it. The flag of \<^verbatim>\<open>boost::edge\<close> is not looked at: when it is false the descriptor
  is not one of an edge of the graph and the read through it has no defined result;
  the model stops there with \<open>Invalid_edge_read a b\<close>, which is not an exception of
  the program.
\<close>

datatype failure = Range_error string | Invalid_edge_read vertex_t vertex_t

fun multiply :: "('a, 'm) utility \<Rightarrow> 'm graph_t \<Rightarrow> nat list \<Rightarrow> 'm \<Rightarrow> failure + 'm" where
  "multiply U G (a # b # rest) ans =
     (case edge a b G of
        None \<Rightarrow> Inl (Invalid_edge_read a b)
      | Some e \<Rightarrow> multiply U G (b # rest) (prod_matrix U (conv_matrix e) ans))"
| "multiply U G _ ans = Inr ans"

subsection \<open>\<open>convert\<close>\<close>

text \<open>
  \<open>convert_in\<close> is the body of \<^verbatim>\<open>convert\<close> after the graph has been built, with the
  graph as an argument; \<open>convert\<close> runs it on the catalog. The result is \<open>None\<close> when
  the backward walk has no value, \<open>Some (Inl (Range_error msg))\<close> for
  \<^verbatim>\<open>throw std::range_error(msg)\<close>, and \<open>Some (Inr ans)\<close> for \<^verbatim>\<open>return ans\<close>.
  The predecessor array has \<open>graph_size\<close> entries, so \<open>convert_in\<close> is meant for graphs
  of at most \<open>graph_size\<close> vertices.
\<close>

definition convert_in ::
  "('a, 'm) utility \<Rightarrow> 'm graph_t \<Rightarrow> string \<Rightarrow> string \<Rightarrow> 'a \<times> 'a \<Rightarrow> (failure + 'm) option" where
  "convert_in U G src dest source_coordinate =
     (let col_vec = column_vector U (fst source_coordinate) (snd source_coordinate) in
      case find_vertex G src (vertices G) of
        None \<Rightarrow> Some (Inl (Range_error (''Not found '' @ src)))
      | Some src_vertex \<Rightarrow>
          (case find_vertex G dest (vertices G) of
             None \<Rightarrow> Some (Inl (Range_error (''Not found '' @ dest)))
           | Some dest_vertex \<Rightarrow>
               (let preds = (replicate graph_size 0)[src_vertex := src_vertex];
                    preds = breadth_first_search G src_vertex preds
                in case walk preds src_vertex dest_vertex [] of
                     None \<Rightarrow> None
                   | Some store_path \<Rightarrow> Some (multiply U G (rev store_path) col_vec))))"

definition convert ::
  "('a, 'm) utility \<Rightarrow> string \<Rightarrow> string \<Rightarrow> 'a \<Rightarrow> 'a \<Rightarrow> 'a \<Rightarrow> 'a \<times> 'a \<Rightarrow> (failure + 'm) option" where
  "convert U src dest phi st obliquity source_coordinate =
     convert_in U (catalog U phi st obliquity) src dest source_coordinate"

subsection \<open>Notions used to state the properties\<close>

text \<open>The names registered in a graph, in vertex order.\<close>

definition frame_names :: "'m graph_t \<Rightarrow> string list" where
  "frame_names G = map (\<lambda>sv. coordinate_name (fst sv)) G"

text \<open>
  The path that \<open>convert\<close> discovers between two resolved vertices: the vertex sequence
  \<open>store_path\<close> of the backward walk over the predecessors recorded by the search,
  read from the source to the destination.
\<close>

definition discovered_path :: "'m graph_t \<Rightarrow> vertex_t \<Rightarrow> vertex_t \<Rightarrow> nat list option" where
  "discovered_path G src_vertex dest_vertex =
     map_option rev
       (walk (breadth_first_search G src_vertex ((replicate graph_size 0)[src_vertex := src_vertex]))
          src_vertex dest_vertex [])"

text \<open>
  A path of the graph: a non-empty sequence of vertices in which every consecutive pair
  is joined by an edge in that direction. It has one edge less than it has vertices.
\<close>

fun is_path :: "'m graph_t \<Rightarrow> vertex_t list \<Rightarrow> bool" where
  "is_path G [] = False"
| "is_path G [v] = (v < num_vertices G)"
| "is_path G (a # b # rest) = (edge a b G \<noteq> None \<and> is_path G (b # rest))"

text \<open>
  All simple paths (no vertex twice) that start at \<open>u\<close>, avoid the vertices in \<open>seen\<close>
  and have at most \<open>n\<close> vertices.
\<close>

fun simple_paths :: "'m graph_t \<Rightarrow> nat \<Rightarrow> vertex_t list \<Rightarrow> vertex_t \<Rightarrow> vertex_t list list" where
  "simple_paths G 0 seen u = []"
| "simple_paths G (Suc n) seen u =
     [u] # concat (map (\<lambda>e. map ((#) u) (simple_paths G n (u # seen) (fst e)))
                       (filter (\<lambda>e. fst e \<notin> set (u # seen)) (out_edges u G)))"

text \<open>
  A graph that differs from \<open>G\<close> only in the order in which the out-edges of each vertex
  are stored, which is the order in which the search examines them.
\<close>

definition edge_reordering :: "'m graph_t \<Rightarrow> 'm graph_t \<Rightarrow> bool" where
  "edge_reordering G G' \<longleftrightarrow>
     length G' = length G \<and>
     list_all (\<lambda>u. fst (G' ! u) = fst (G ! u) \<and> mset (snd (G' ! u)) = mset (snd (G ! u)))
       [0 ..< length G]"

text \<open>The reordering that stores every out-edge list backwards.\<close>

definition reversed_out_edges :: "'m graph_t \<Rightarrow> 'm graph_t" where
  "reversed_out_edges G = map (\<lambda>sv. (fst sv, rev (snd sv))) G"

subsection \<open>A utility instance over integer matrices\<close>

text \<open>
  Matrices as lists of rows of integers, \<open>sample_prod\<close> the product of a matrix with a
  column vector; the builders have distinct, non-commuting values, so that an
  evaluation shows which matrices were applied and in which order.
\<close>

definition sample_prod :: "int list list \<Rightarrow> int list list \<Rightarrow> int list list" where
  "sample_prod A v = map (\<lambda>row. [sum_list (map2 (*) row (concat v))]) A"

definition sample_utility :: "(int, int list list) utility" where
  "sample_utility =
     \<lparr>column_vector = (\<lambda>x y. [[x], [y]]),
      ha_dec_horizon = (\<lambda>phi. [[phi, 1], [1, 0]]),
      ha_dec_ra_dec = (\<lambda>st. [[1, st], [0, 1]]),
      ra_dec_to_ecliptic = (\<lambda>eps. [[1, 0], [eps, 1]]),
      ecliptic_to_ra_dec = (\<lambda>eps. [[1, 0], [- eps, 1]]),
      ra_dec_to_galactic = [[2, 0], [0, 1]],
      galactic_to_ra_dec = [[1, 0], [0, 3]],
      prod_matrix = sample_prod\<rparr>"

section \<open>The setters of \<open>spherical_equatorial_representation.hpp\<close>\<close>

text \<open>
  The representation holds one \<^verbatim>\<open>bg::model::point\<close> of three coordinates of type
  \<^verbatim>\<open>CoordinateType\<close> (\<open>'c\<close>). The quantity types \<^verbatim>\<open>LatQuantity\<close>, \<^verbatim>\<open>LonQuantity\<close> and
  \<^verbatim>\<open>DistQuantity\<close> are template parameters; the casts of Boost.Units between them and
  the stored SI value are parameters of the model.
\<close>

record 'c point =
  get0 :: 'c
  get1 :: 'c
  get2 :: 'c

record 'c spherical_equatorial_representation =
  point :: "'c point"

record ('c, 'lat, 'lon, 'dist) quantities =
  lat_value :: "'lat \<Rightarrow> 'c"
  lon_value :: "'lon \<Rightarrow> 'c"
  dist_value :: "'dist \<Rightarrow> 'c"
  lat_from_value :: "'c \<Rightarrow> 'lat"
  lon_from_value :: "'c \<Rightarrow> 'lon"
  dist_from_value :: "'c \<Rightarrow> 'dist"

definition get_lat ::
  "('c, 'lat, 'lon, 'dist) quantities \<Rightarrow> 'c spherical_equatorial_representation \<Rightarrow> 'lat" where
  "get_lat Q this = lat_from_value Q (get0 (point this))"

definition get_lon ::
  "('c, 'lat, 'lon, 'dist) quantities \<Rightarrow> 'c spherical_equatorial_representation \<Rightarrow> 'lon" where
  "get_lon Q this = lon_from_value Q (get1 (point this))"

definition get_dist ::
  "('c, 'lat, 'lon, 'dist) quantities \<Rightarrow> 'c spherical_equatorial_representation \<Rightarrow> 'dist" where
  "get_dist Q this = dist_from_value Q (get2 (point this))"

definition set_lat ::
  "('c, 'lat, 'lon, 'dist) quantities \<Rightarrow> 'lat \<Rightarrow>
   'c spherical_equatorial_representation \<Rightarrow> 'c spherical_equatorial_representation" where
  "set_lat Q lat this = this\<lparr>point := (point this)\<lparr>get0 := lat_value Q lat\<rparr>\<rparr>"

definition set_lon ::
  "('c, 'lat, 'lon, 'dist) quantities \<Rightarrow> 'lon \<Rightarrow>
   'c spherical_equatorial_representation \<Rightarrow> 'c spherical_equatorial_representation" where
  "set_lon Q lon this = this\<lparr>point := (point this)\<lparr>get1 := lon_value Q lon\<rparr>\<rparr>"

definition set_dist ::
  "('c, 'lat, 'lon, 'dist) quantities \<Rightarrow> 'dist \<Rightarrow>
   'c spherical_equatorial_representation \<Rightarrow> 'c spherical_equatorial_representation" where
  "set_dist Q distance this = this\<lparr>point := (point this)\<lparr>get2 := dist_value Q distance\<rparr>\<rparr>"

definition set_lat_lon_dist ::
  "('c, 'lat, 'lon, 'dist) quantities \<Rightarrow> 'lat \<Rightarrow> 'lon \<Rightarrow> 'dist \<Rightarrow>
   'c spherical_equatorial_representation \<Rightarrow> 'c spherical_equatorial_representation" where
  "set_lat_lon_dist Q lat lon distance this =
     set_dist Q distance (set_lon Q lon (set_lat Q lat this))"

section \<open>Evaluating the catalog\<close>

text \<open>
  The catalog does not depend on the arguments of \<open>convert\<close> except for the matrices on
  its edges, so its shape and the searches on it can be computed once and for all.
\<close>

declare breadth_first_visit.simps [simp del]

lemma catalog_eq: "catalog U phi st obliquity =
  [(\<lparr>coordinate_name = ''Horizon''\<rparr>,
     [(1, \<lparr>edge_label = ''Horizon to Equatorial HA Dec'', conv_matrix = ha_dec_horizon U phi\<rparr>)]),
   (\<lparr>coordinate_name = ''Equatorial_HA_Dec''\<rparr>,
     [(0, \<lparr>edge_label = ''Equatorial HA Dec to Horizon'', conv_matrix = ha_dec_horizon U phi\<rparr>),
      (2, \<lparr>edge_label = ''Equatorial HA Dec to Equatorial RA Dec'', conv_matrix = ha_dec_ra_dec U st\<rparr>)]),
   (\<lparr>coordinate_name = ''Equatorial_RA_Dec''\<rparr>,
     [(1, \<lparr>edge_label = ''Equatorial RA Dec to Equatorial HA Dec'', conv_matrix = ha_dec_ra_dec U st\<rparr>),
      (3, \<lparr>edge_label = ''Equatorial RA Dec to Ecliptic'', conv_matrix = ra_dec_to_ecliptic U obliquity\<rparr>),
      (4, \<lparr>edge_label = ''Equatorial RA Dec to Galactic'', conv_matrix = ra_dec_to_galactic U\<rparr>)]),
   (\<lparr>coordinate_name = ''Ecliptic''\<rparr>,
     [(2, \<lparr>edge_label = ''Ecliptic to Equatorial RA Dec'', conv_matrix = ecliptic_to_ra_dec U obliquity\<rparr>)]),
   (\<lparr>coordinate_name = ''Galactic''\<rparr>,
     [(2, \<lparr>edge_label = ''Galactic to Equatorial RA Dec'', conv_matrix = galactic_to_ra_dec U\<rparr>)])]"
proof -
  have "catalog U phi st obliquity =
    add_edge 4 2 \<lparr>edge_label = ''Galactic to Equatorial RA Dec'', conv_matrix = galactic_to_ra_dec U\<rparr>
   (add_edge 2 4 \<lparr>edge_label = ''Equatorial RA Dec to Galactic'', conv_matrix = ra_dec_to_galactic U\<rparr>
   (add_edge 3 2 \<lparr>edge_label = ''Ecliptic to Equatorial RA Dec'', conv_matrix = ecliptic_to_ra_dec U obliquity\<rparr>
   (add_edge 2 3 \<lparr>edge_label = ''Equatorial RA Dec to Ecliptic'', conv_matrix = ra_dec_to_ecliptic U obliquity\<rparr>
   (add_edge 2 1 \<lparr>edge_label = ''Equatorial RA Dec to Equatorial HA Dec'', conv_matrix = ha_dec_ra_dec U st\<rparr>
   (add_edge 1 2 \<lparr>edge_label = ''Equatorial HA Dec to Equatorial RA Dec'', conv_matrix = ha_dec_ra_dec U st\<rparr>
   (add_edge 0 1 \<lparr>edge_label = ''Horizon to Equatorial HA Dec'', conv_matrix = ha_dec_horizon U phi\<rparr>
   (add_edge 1 0 \<lparr>edge_label = ''Equatorial HA Dec to Horizon'', conv_matrix = ha_dec_horizon U phi\<rparr>
     [(\<lparr>coordinate_name = ''Horizon''\<rparr>, []), (\<lparr>coordinate_name = ''Equatorial_HA_Dec''\<rparr>, []),
      (\<lparr>coordinate_name = ''Equatorial_RA_Dec''\<rparr>, []), (\<lparr>coordinate_name = ''Ecliptic''\<rparr>, []),
      (\<lparr>coordinate_name = ''Galactic''\<rparr>, [])])))))))"
    by (simp add: catalog_def add_vertex_def Let_def eval_nat_numeral)
  then show ?thesis
    by (simp add: add_edge_def Let_def)
qed

lemma length_catalog: "length (catalog U phi st obliquity) = 5"
  by (simp add: catalog_eq)

lemma vertices_catalog: "vertices (catalog U phi st obliquity) = [0, 1, 2, 3, 4]"
  by (simp add: vertices_def length_catalog upt_rec)

lemma names_catalog:
  "coordinate_name (vertex_property (catalog U phi st obliquity) 0) = ''Horizon''"
  "coordinate_name (vertex_property (catalog U phi st obliquity) (Suc 0)) = ''Equatorial_HA_Dec''"
  "coordinate_name (vertex_property (catalog U phi st obliquity) 2) = ''Equatorial_RA_Dec''"
  "coordinate_name (vertex_property (catalog U phi st obliquity) 3) = ''Ecliptic''"
  "coordinate_name (vertex_property (catalog U phi st obliquity) 4) = ''Galactic''"
  by (simp_all add: vertex_property_def catalog_eq)

lemma frame_names_catalog:
  "frame_names (catalog U phi st obliquity) =
     [''Horizon'', ''Equatorial_HA_Dec'', ''Equatorial_RA_Dec'', ''Ecliptic'', ''Galactic'']"
  by (simp add: frame_names_def catalog_eq)

lemma out_edges_catalog:
  "out_edges 0 (catalog U phi st obliquity) =
     [(1, \<lparr>edge_label = ''Horizon to Equatorial HA Dec'', conv_matrix = ha_dec_horizon U phi\<rparr>)]"
  "out_edges (Suc 0) (catalog U phi st obliquity) =
     [(0, \<lparr>edge_label = ''Equatorial HA Dec to Horizon'', conv_matrix = ha_dec_horizon U phi\<rparr>),
      (2, \<lparr>edge_label = ''Equatorial HA Dec to Equatorial RA Dec'', conv_matrix = ha_dec_ra_dec U st\<rparr>)]"
  "out_edges 2 (catalog U phi st obliquity) =
     [(1, \<lparr>edge_label = ''Equatorial RA Dec to Equatorial HA Dec'', conv_matrix = ha_dec_ra_dec U st\<rparr>),
      (3, \<lparr>edge_label = ''Equatorial RA Dec to Ecliptic'', conv_matrix = ra_dec_to_ecliptic U obliquity\<rparr>),
      (4, \<lparr>edge_label = ''Equatorial RA Dec to Galactic'', conv_matrix = ra_dec_to_galactic U\<rparr>)]"
  "out_edges 3 (catalog U phi st obliquity) =
     [(2, \<lparr>edge_label = ''Ecliptic to Equatorial RA Dec'', conv_matrix = ecliptic_to_ra_dec U obliquity\<rparr>)]"
  "out_edges 4 (catalog U phi st obliquity) =
     [(2, \<lparr>edge_label = ''Galactic to Equatorial RA Dec'', conv_matrix = galactic_to_ra_dec U\<rparr>)]"
  by (simp_all add: out_edges_def catalog_eq)

lemma edges_catalog:
  "edges (catalog U phi st obliquity) =
     [(0, 1), (1, 0), (1, 2), (2, 1), (2, 3), (2, 4), (3, 2), (4, 2)]"
  by (simp add: edges_def vertices_catalog out_edges_catalog)

lemma edge_catalog:
  "edge 0 (Suc 0) (catalog U phi st obliquity) =
     Some \<lparr>edge_label = ''Horizon to Equatorial HA Dec'', conv_matrix = ha_dec_horizon U phi\<rparr>"
  "edge (Suc 0) 0 (catalog U phi st obliquity) =
     Some \<lparr>edge_label = ''Equatorial HA Dec to Horizon'', conv_matrix = ha_dec_horizon U phi\<rparr>"
  "edge (Suc 0) 2 (catalog U phi st obliquity) =
     Some \<lparr>edge_label = ''Equatorial HA Dec to Equatorial RA Dec'', conv_matrix = ha_dec_ra_dec U st\<rparr>"
  "edge 2 (Suc 0) (catalog U phi st obliquity) =
     Some \<lparr>edge_label = ''Equatorial RA Dec to Equatorial HA Dec'', conv_matrix = ha_dec_ra_dec U st\<rparr>"
  "edge 2 3 (catalog U phi st obliquity) =
     Some \<lparr>edge_label = ''Equatorial RA Dec to Ecliptic'', conv_matrix = ra_dec_to_ecliptic U obliquity\<rparr>"
  "edge 3 2 (catalog U phi st obliquity) =
     Some \<lparr>edge_label = ''Ecliptic to Equatorial RA Dec'', conv_matrix = ecliptic_to_ra_dec U obliquity\<rparr>"
  "edge 2 4 (catalog U phi st obliquity) =
     Some \<lparr>edge_label = ''Equatorial RA Dec to Galactic'', conv_matrix = ra_dec_to_galactic U\<rparr>"
  "edge 4 2 (catalog U phi st obliquity) =
     Some \<lparr>edge_label = ''Galactic to Equatorial RA Dec'', conv_matrix = galactic_to_ra_dec U\<rparr>"
  by (simp_all add: edge_def out_edges_catalog)

lemma not_edge_catalog:
  "edge 0 0 (catalog U phi st obliquity) = None"
  "edge 0 2 (catalog U phi st obliquity) = None"
  "edge 0 3 (catalog U phi st obliquity) = None"
  "edge 0 4 (catalog U phi st obliquity) = None"
  "edge (Suc 0) (Suc 0) (catalog U phi st obliquity) = None"
  "edge (Suc 0) 3 (catalog U phi st obliquity) = None"
  "edge (Suc 0) 4 (catalog U phi st obliquity) = None"
  "edge 2 0 (catalog U phi st obliquity) = None"
  "edge 2 2 (catalog U phi st obliquity) = None"
  "edge 3 0 (catalog U phi st obliquity) = None"
  "edge 3 (Suc 0) (catalog U phi st obliquity) = None"
  "edge 3 3 (catalog U phi st obliquity) = None"
  "edge 3 4 (catalog U phi st obliquity) = None"
  "edge 4 0 (catalog U phi st obliquity) = None"
  "edge 4 (Suc 0) (catalog U phi st obliquity) = None"
  "edge 4 3 (catalog U phi st obliquity) = None"
  "edge 4 4 (catalog U phi st obliquity) = None"
  by (simp_all add: edge_def out_edges_catalog)

lemma less_5_cases: "n < 5 \<Longrightarrow> n = 0 \<or> n = Suc 0 \<or> n = 2 \<or> n = 3 \<or> n = (4::nat)"
  by arith

lemma edge_catalog_range:
  assumes "edge a b (catalog U phi st obliquity) \<noteq> None"
  shows "a < 5 \<and> b < 5"
proof -
  have a: "a < 5"
    using assms by (auto simp: edge_def out_edges_def length_catalog split: if_splits)
  have "b < 5"
    using assms less_5_cases [OF a]
    by (auto simp: edge_def out_edges_catalog split: if_splits)
  with a show ?thesis by simp
qed

lemma distinct_targets_catalog:
  "distinct (map fst (out_edges a (catalog U phi st obliquity)))"
proof (cases "a < 5")
  case True
  from less_5_cases [OF this] show ?thesis
    by (elim disjE) (simp_all add: out_edges_catalog)
next
  case False
  then show ?thesis by (simp add: out_edges_def length_catalog)
qed

lemma breadth_first_visit_Nil:
  "breadth_first_visit G \<lparr>color = c, queue = [], predecessors = p\<rparr>
     = \<lparr>color = c, queue = [], predecessors = p\<rparr>"
  by (simp add: breadth_first_visit.simps)

lemma breadth_first_visit_Cons:
  "breadth_first_visit G \<lparr>color = c, queue = u # q, predecessors = p\<rparr>
     = breadth_first_visit G (examine_vertex G \<lparr>color = c, queue = u # q, predecessors = p\<rparr> u q)"
  by (subst breadth_first_visit.simps) simp

lemma replicate_5: "replicate 5 x = [x, x, x, x, x]"
  by (simp add: eval_nat_numeral)

lemma list_update_Cons_numeral: "(x # xs)[numeral n := y] = x # xs[pred_numeral n := y]"
  by (simp add: numeral_eq_Suc)

lemmas bfs_eval = replicate_5 list_update_Cons_numeral breadth_first_visit_Nil
  breadth_first_visit_Cons examine_vertex_def examine_edge_def Let_def
  breadth_first_search_state_def num_vertices_def graph_size_def

lemma bfs_state_catalog:
  "breadth_first_search_state (catalog U phi st obliquity) 0 ((replicate graph_size 0)[0 := 0])
     = \<lparr>color = [Black, Black, Black, Black, Black], queue = [], predecessors = [0, 0, 1, 2, 2]\<rparr>"
  "breadth_first_search_state (catalog U phi st obliquity) (Suc 0) ((replicate graph_size 0)[Suc 0 := Suc 0])
     = \<lparr>color = [Black, Black, Black, Black, Black], queue = [], predecessors = [1, 1, 1, 2, 2]\<rparr>"
  "breadth_first_search_state (catalog U phi st obliquity) 2 ((replicate graph_size 0)[2 := 2])
     = \<lparr>color = [Black, Black, Black, Black, Black], queue = [], predecessors = [1, 2, 2, 2, 2]\<rparr>"
  "breadth_first_search_state (catalog U phi st obliquity) 3 ((replicate graph_size 0)[3 := 3])
     = \<lparr>color = [Black, Black, Black, Black, Black], queue = [], predecessors = [1, 2, 3, 3, 2]\<rparr>"
  "breadth_first_search_state (catalog U phi st obliquity) 4 ((replicate graph_size 0)[4 := 4])
     = \<lparr>color = [Black, Black, Black, Black, Black], queue = [], predecessors = [1, 2, 4, 2, 4]\<rparr>"
  by (simp_all add: bfs_eval length_catalog out_edges_catalog)

lemma bfs_catalog:
  "breadth_first_search (catalog U phi st obliquity) 0 ((replicate graph_size 0)[0 := 0]) = [0, 0, 1, 2, 2]"
  "breadth_first_search (catalog U phi st obliquity) (Suc 0) ((replicate graph_size 0)[Suc 0 := Suc 0]) = [1, 1, 1, 2, 2]"
  "breadth_first_search (catalog U phi st obliquity) 2 ((replicate graph_size 0)[2 := 2]) = [1, 2, 2, 2, 2]"
  "breadth_first_search (catalog U phi st obliquity) 3 ((replicate graph_size 0)[3 := 3]) = [1, 2, 3, 3, 2]"
  "breadth_first_search (catalog U phi st obliquity) 4 ((replicate graph_size 0)[4 := 4]) = [1, 2, 4, 2, 4]"
  by (simp_all add: breadth_first_search_def bfs_state_catalog)

lemma bfs_color_catalog:
  assumes "s < 5" and "d < 5"
  shows "color (breadth_first_search_state (catalog U phi st obliquity) s
           ((replicate graph_size 0)[s := s])) ! d = Black"
  using less_5_cases [OF assms(1)] less_5_cases [OF assms(2)]
  by (elim disjE; simp add: bfs_state_catalog)

section \<open>Name resolution and the zero-length path\<close>

lemma find_vertex_None:
  "find_vertex G name vs = None \<longleftrightarrow>
     name \<notin> set (map (\<lambda>v. coordinate_name (vertex_property G v)) vs)"
  by (induction vs) auto

lemma frame_names_vertices:
  "frame_names G = map (\<lambda>v. coordinate_name (vertex_property G v)) (vertices G)"
  unfolding frame_names_def vertices_def vertex_property_def
  by (rule nth_equalityI) simp_all

lemma find_vertex_unregistered:
  "name \<notin> set (frame_names G) \<Longrightarrow> find_vertex G name (vertices G) = None"
  by (simp add: find_vertex_None frame_names_vertices)

lemma find_vertex_registered:
  "name \<in> set (frame_names G) \<Longrightarrow> \<exists>v. find_vertex G name (vertices G) = Some v"
  using find_vertex_None [of G name "vertices G"]
  by (cases "find_vertex G name (vertices G)") (simp_all add: frame_names_vertices)

lemma find_vertex_Some:
  "find_vertex G name vs = Some v \<Longrightarrow> v \<in> set vs \<and> coordinate_name (vertex_property G v) = name"
  by (induction vs) (auto split: if_splits)

lemma find_vertex_catalog:
  "find_vertex (catalog U phi st obliquity) ''Horizon'' (vertices (catalog U phi st obliquity)) = Some 0"
  "find_vertex (catalog U phi st obliquity) ''Equatorial_HA_Dec'' (vertices (catalog U phi st obliquity)) = Some 1"
  "find_vertex (catalog U phi st obliquity) ''Equatorial_RA_Dec'' (vertices (catalog U phi st obliquity)) = Some 2"
  "find_vertex (catalog U phi st obliquity) ''Ecliptic'' (vertices (catalog U phi st obliquity)) = Some 3"
  "find_vertex (catalog U phi st obliquity) ''Galactic'' (vertices (catalog U phi st obliquity)) = Some 4"
  by (simp_all add: vertices_catalog names_catalog)

lemma find_vertex_catalog_range:
  "find_vertex (catalog U phi st obliquity) name (vertices (catalog U phi st obliquity)) = Some v
   \<Longrightarrow> v < 5"
  using find_vertex_Some [of "catalog U phi st obliquity" name "vertices (catalog U phi st obliquity)" v]
  by (auto simp: vertices_catalog)

lemma convert_in_unknown_src:
  "src \<notin> set (frame_names G) \<Longrightarrow>
   convert_in U G src dest c = Some (Inl (Range_error (''Not found '' @ src)))"
  by (simp add: convert_in_def find_vertex_unregistered)

lemma convert_in_unknown_dest:
  assumes "src \<in> set (frame_names G)" and "dest \<notin> set (frame_names G)"
  shows "convert_in U G src dest c = Some (Inl (Range_error (''Not found '' @ dest)))"
proof -
  obtain s where "find_vertex G src (vertices G) = Some s"
    using find_vertex_registered [OF assms(1)] by blast
  then show ?thesis
    using assms(2) by (simp add: convert_in_def find_vertex_unregistered)
qed

lemma walk_at_source: "walk preds s s store = Some (store @ [s])"
  by (subst walk.simps) simp

lemma convert_in_same_frame:
  assumes "X \<in> set (frame_names G)"
  shows "convert_in U G X X c = Some (Inr (column_vector U (fst c) (snd c)))"
proof -
  obtain s where "find_vertex G X (vertices G) = Some s"
    using find_vertex_registered [OF assms] by blast
  then show ?thesis
    by (simp add: convert_in_def walk_at_source Let_def)
qed

section \<open>The discovered paths of the catalog\<close>

lemma discovered_path_same: "discovered_path G v v = Some [v]"
  by (simp add: discovered_path_def walk_at_source)

lemma discovered_path_catalog:
  "discovered_path (catalog U phi st obliquity) 0 0 = Some [0]"
  "discovered_path (catalog U phi st obliquity) 0 (Suc 0) = Some [0, 1]"
  "discovered_path (catalog U phi st obliquity) 0 2 = Some [0, 1, 2]"
  "discovered_path (catalog U phi st obliquity) 0 3 = Some [0, 1, 2, 3]"
  "discovered_path (catalog U phi st obliquity) 0 4 = Some [0, 1, 2, 4]"
  "discovered_path (catalog U phi st obliquity) (Suc 0) 0 = Some [1, 0]"
  "discovered_path (catalog U phi st obliquity) (Suc 0) (Suc 0) = Some [1]"
  "discovered_path (catalog U phi st obliquity) (Suc 0) 2 = Some [1, 2]"
  "discovered_path (catalog U phi st obliquity) (Suc 0) 3 = Some [1, 2, 3]"
  "discovered_path (catalog U phi st obliquity) (Suc 0) 4 = Some [1, 2, 4]"
  "discovered_path (catalog U phi st obliquity) 2 0 = Some [2, 1, 0]"
  "discovered_path (catalog U phi st obliquity) 2 (Suc 0) = Some [2, 1]"
  "discovered_path (catalog U phi st obliquity) 2 2 = Some [2]"
  "discovered_path (catalog U phi st obliquity) 2 3 = Some [2, 3]"
  "discovered_path (catalog U phi st obliquity) 2 4 = Some [2, 4]"
  "discovered_path (catalog U phi st obliquity) 3 0 = Some [3, 2, 1, 0]"
  "discovered_path (catalog U phi st obliquity) 3 (Suc 0) = Some [3, 2, 1]"
  "discovered_path (catalog U phi st obliquity) 3 2 = Some [3, 2]"
  "discovered_path (catalog U phi st obliquity) 3 3 = Some [3]"
  "discovered_path (catalog U phi st obliquity) 3 4 = Some [3, 2, 4]"
  "discovered_path (catalog U phi st obliquity) 4 0 = Some [4, 2, 1, 0]"
  "discovered_path (catalog U phi st obliquity) 4 (Suc 0) = Some [4, 2, 1]"
  "discovered_path (catalog U phi st obliquity) 4 2 = Some [4, 2]"
  "discovered_path (catalog U phi st obliquity) 4 3 = Some [4, 2, 3]"
  "discovered_path (catalog U phi st obliquity) 4 4 = Some [4]"
  by (simp_all add: discovered_path_def bfs_catalog walk.simps)

lemma discovered_path_catalog_props:
  assumes "s < 5" and "d < 5"
  shows "\<exists>p. discovered_path (catalog U phi st obliquity) s d = Some p \<and>
             is_path (catalog U phi st obliquity) p \<and> hd p = s \<and> last p = d \<and>
             distinct p \<and> length p \<le> 4"
  using less_5_cases [OF assms(1)] less_5_cases [OF assms(2)]
  by (elim disjE; simp add: discovered_path_catalog edge_catalog num_vertices_def length_catalog)

lemma multiply_along_path:
  "is_path G p \<Longrightarrow>
   multiply U G p v =
     Inr (foldl (\<lambda>vec (a, b). prod_matrix U (conv_matrix (the (edge a b G))) vec) v (zip p (tl p)))"
  by (induction G p arbitrary: v rule: is_path.induct) auto

lemma convert_in_discovered_path:
  assumes "find_vertex G src (vertices G) = Some s" and "find_vertex G dest (vertices G) = Some d"
  shows "convert_in U G src dest c =
           (case discovered_path G s d of
              None \<Rightarrow> None
            | Some p \<Rightarrow> Some (multiply U G p (column_vector U (fst c) (snd c))))"
  using assms
  by (simp add: convert_in_def discovered_path_def Let_def split: option.splits)

lemma convert_catalog_returns:
  assumes "src \<in> set (frame_names (catalog U phi st obliquity))"
    and "dest \<in> set (frame_names (catalog U phi st obliquity))"
  shows "\<exists>r. convert U src dest phi st obliquity c = Some (Inr r)"
proof -
  let ?G = "catalog U phi st obliquity"
  obtain s where s: "find_vertex ?G src (vertices ?G) = Some s"
    using find_vertex_registered [OF assms(1)] by blast
  obtain d where d: "find_vertex ?G dest (vertices ?G) = Some d"
    using find_vertex_registered [OF assms(2)] by blast
  have s5: "s < 5" and d5: "d < 5"
    using s d by (auto dest: find_vertex_catalog_range)
  obtain p where p: "discovered_path ?G s d = Some p" "is_path ?G p"
    using discovered_path_catalog_props [OF s5 d5, of U phi st obliquity] by blast
  show ?thesis
    by (simp add: convert_def convert_in_discovered_path [OF s d] p(1) multiply_along_path [OF p(2)])
qed

lemma discovered_path_catalog_step:
  assumes "edge a b (catalog U phi st obliquity) \<noteq> None" and "d < 5"
  shows "length (the (discovered_path (catalog U phi st obliquity) a d))
           \<le> Suc (length (the (discovered_path (catalog U phi st obliquity) b d)))"
proof -
  have a: "a < 5" and b: "b < 5"
    using edge_catalog_range [OF assms(1)] by simp_all
  show ?thesis
    using less_5_cases [OF a] less_5_cases [OF b] less_5_cases [OF assms(2)] assms(1)
    by - (elim disjE; simp add: discovered_path_catalog edge_catalog not_edge_catalog)
qed

lemma is_path_last_range:
  "is_path (catalog U phi st obliquity) p \<Longrightarrow> last p < 5"
proof (induction "catalog U phi st obliquity" p rule: is_path.induct)
  case 1
  then show ?case by simp
next
  case (2 v)
  then show ?case by (simp add: num_vertices_def length_catalog)
next
  case (3 a b rest)
  then show ?case by simp
qed

lemma is_path_catalog_range:
  "is_path (catalog U phi st obliquity) p \<Longrightarrow> set p \<subseteq> {..< 5}"
proof (induction "catalog U phi st obliquity" p rule: is_path.induct)
  case 1
  then show ?case by simp
next
  case (2 v)
  then show ?case by (simp add: num_vertices_def length_catalog)
next
  case (3 a b rest)
  then show ?case using edge_catalog_range [of a b U phi st obliquity] by auto
qed

lemma discovered_path_catalog_le:
  "is_path (catalog U phi st obliquity) p \<Longrightarrow>
   length (the (discovered_path (catalog U phi st obliquity) (hd p) (last p))) \<le> length p"
proof (induction "catalog U phi st obliquity" p rule: is_path.induct)
  case 1
  then show ?case by simp
next
  case (2 v)
  then show ?case by (simp add: discovered_path_same)
next
  case (3 a b rest)
  have d: "last (b # rest) < 5"
    using "3.prems" is_path_last_range [of U phi st obliquity "b # rest"] by simp
  have "length (the (discovered_path (catalog U phi st obliquity) a (last (b # rest))))
          \<le> Suc (length (the (discovered_path (catalog U phi st obliquity) b (last (b # rest)))))"
    using "3.prems" discovered_path_catalog_step [OF _ d, of a b U phi st obliquity] by simp
  moreover have "length (the (discovered_path (catalog U phi st obliquity) b (last (b # rest))))
          \<le> length (b # rest)"
    using "3.prems" "3.hyps" by simp
  ultimately show ?case by simp
qed

lemma discovered_path_catalog_le_from:
  "is_path (catalog U phi st obliquity) q \<Longrightarrow> v \<in> set q \<Longrightarrow>
   length (the (discovered_path (catalog U phi st obliquity) v (last q))) \<le> length q"
proof (induction "catalog U phi st obliquity" q rule: is_path.induct)
  case 1
  then show ?case by simp
next
  case (2 x)
  then show ?case by (simp add: discovered_path_same)
next
  case (3 a b rest)
  show ?case
  proof (cases "v = a")
    case True
    then show ?thesis
      using discovered_path_catalog_le [OF "3.prems"(1)] by simp
  next
    case False
    then have "length (the (discovered_path (catalog U phi st obliquity) v (last (b # rest))))
        \<le> length (b # rest)"
      using "3.prems" "3.hyps" by simp
    then show ?thesis by simp
  qed
qed

lemma shortest_path_catalog_distinct:
  "is_path (catalog U phi st obliquity) p \<Longrightarrow>
   length p \<le> length (the (discovered_path (catalog U phi st obliquity) (hd p) (last p))) \<Longrightarrow>
   distinct p"
proof (induction "catalog U phi st obliquity" p rule: is_path.induct)
  case 1
  then show ?case by simp
next
  case (2 x)
  then show ?case by simp
next
  case (3 a b rest)
  let ?h = "\<lambda>v. length (the (discovered_path (catalog U phi st obliquity) v (last (b # rest))))"
  have d5: "last (b # rest) < 5"
    using "3.prems"(1) is_path_last_range [of U phi st obliquity "b # rest"] by simp
  have "?h a \<le> Suc (?h b)"
    using "3.prems"(1) discovered_path_catalog_step [OF _ d5, of a b U phi st obliquity] by simp
  moreover have "length (a # b # rest) \<le> ?h a"
    using "3.prems"(2) by simp
  ultimately have "length (b # rest) \<le> ?h b" by simp
  then have tail: "distinct (b # rest)"
    using "3.prems"(1) "3.hyps" by simp
  have "a \<notin> set (b # rest)"
  proof
    assume "a \<in> set (b # rest)"
    then have "?h a \<le> length (b # rest)"
      using "3.prems"(1) discovered_path_catalog_le_from [of U phi st obliquity "b # rest" a] by simp
    with \<open>length (a # b # rest) \<le> ?h a\<close> show False by simp
  qed
  with tail show ?case by simp
qed

section \<open>Simple paths of the catalog\<close>

lemma edge_in_out_edges:
  assumes "edge a b G \<noteq> None"
  shows "\<exists>e \<in> set (out_edges a G). fst e = b"
proof -
  from assms obtain x where "x \<in> set (out_edges a G)" and "fst x = b"
    by (auto simp: edge_def find_None_iff)
  then show ?thesis by blast
qed

lemma simple_paths_step:
  assumes "e \<in> set (out_edges a G)" and "fst e \<notin> set (a # seen)"
    and "q \<in> set (simple_paths G m (a # seen) (fst e))"
  shows "a # q \<in> set (simple_paths G (Suc m) seen a)"
proof -
  obtain t x where e: "e = (t, x)" by (cases e)
  show ?thesis using assms unfolding e by force
qed

lemma simple_paths_complete:
  "is_path G p \<Longrightarrow> distinct p \<Longrightarrow> set p \<inter> set seen = {} \<Longrightarrow> length p \<le> n \<Longrightarrow>
   p \<in> set (simple_paths G n seen (hd p))"
proof (induction G p arbitrary: n seen rule: is_path.induct)
  case (1 G)
  then show ?case by simp
next
  case (2 G v)
  then show ?case by (cases n) simp_all
next
  case (3 G a b rest)
  from "3.prems"(4) obtain m where n: "n = Suc m" and m: "length (b # rest) \<le> m"
    by (cases n) simp_all
  from "3.prems"(1) obtain e where e: "e \<in> set (out_edges a G)" "fst e = b"
    using edge_in_out_edges [of a b G] by auto
  have fresh: "b \<notin> set (a # seen)"
    using "3.prems"(2,3) by auto
  have p1: "is_path G (b # rest)" using "3.prems"(1) by simp
  have p2: "distinct (b # rest)" using "3.prems"(2) by simp
  have p3: "set (b # rest) \<inter> set (a # seen) = {}" using "3.prems"(2,3) by auto
  have "b # rest \<in> set (simple_paths G m (a # seen) (hd (b # rest)))"
    using p1 p2 p3 m by (rule "3.IH")
  then have "b # rest \<in> set (simple_paths G m (a # seen) (fst e))"
    using e(2) by simp
  from simple_paths_step [OF e(1) _ this] fresh e(2) show ?case
    unfolding n by simp
qed

declare simple_paths.simps [simp del]

lemma map_arg_cong: "xs = ys \<Longrightarrow> map f xs = map f ys"
  by simp

lemma simple_paths_catalog:
  "simple_paths (catalog U phi st obliquity) (Suc (Suc (Suc (Suc (Suc 0))))) [] 0
     = [[0], [0, 1], [0, 1, 2], [0, 1, 2, 3], [0, 1, 2, 4]]"
  "simple_paths (catalog U phi st obliquity) (Suc (Suc (Suc (Suc (Suc 0))))) [] (Suc 0)
     = [[1], [1, 0], [1, 2], [1, 2, 3], [1, 2, 4]]"
  "simple_paths (catalog U phi st obliquity) (Suc (Suc (Suc (Suc (Suc 0))))) [] 2
     = [[2], [2, 1], [2, 1, 0], [2, 3], [2, 4]]"
  "simple_paths (catalog U phi st obliquity) (Suc (Suc (Suc (Suc (Suc 0))))) [] 3
     = [[3], [3, 2], [3, 2, 1], [3, 2, 1, 0], [3, 2, 4]]"
  "simple_paths (catalog U phi st obliquity) (Suc (Suc (Suc (Suc (Suc 0))))) [] 4
     = [[4], [4, 2], [4, 2, 1], [4, 2, 1, 0], [4, 2, 3]]"
  by (simp_all add: simple_paths.simps out_edges_catalog cong: map_arg_cong)

lemma simple_paths_catalog_discovered:
  "list_all (\<lambda>q. discovered_path (catalog U phi st obliquity) (hd q) (last q) = Some q)
     (simple_paths (catalog U phi st obliquity) (Suc (Suc (Suc (Suc (Suc 0))))) [] 0)"
  "list_all (\<lambda>q. discovered_path (catalog U phi st obliquity) (hd q) (last q) = Some q)
     (simple_paths (catalog U phi st obliquity) (Suc (Suc (Suc (Suc (Suc 0))))) [] (Suc 0))"
  "list_all (\<lambda>q. discovered_path (catalog U phi st obliquity) (hd q) (last q) = Some q)
     (simple_paths (catalog U phi st obliquity) (Suc (Suc (Suc (Suc (Suc 0))))) [] 2)"
  "list_all (\<lambda>q. discovered_path (catalog U phi st obliquity) (hd q) (last q) = Some q)
     (simple_paths (catalog U phi st obliquity) (Suc (Suc (Suc (Suc (Suc 0))))) [] 3)"
  "list_all (\<lambda>q. discovered_path (catalog U phi st obliquity) (hd q) (last q) = Some q)
     (simple_paths (catalog U phi st obliquity) (Suc (Suc (Suc (Suc (Suc 0))))) [] 4)"
  unfolding simple_paths_catalog by (simp_all add: discovered_path_catalog)

lemma simple_path_catalog_unique:
  assumes "is_path (catalog U phi st obliquity) p" and "distinct p"
  shows "discovered_path (catalog U phi st obliquity) (hd p) (last p) = Some p"
proof -
  have range: "set p \<subseteq> {..< 5}"
    using is_path_catalog_range [OF assms(1)] .
  have "card (set p) \<le> card {..< (5::nat)}"
    by (intro card_mono range) simp
  then have len: "length p \<le> Suc (Suc (Suc (Suc (Suc 0))))"
    using distinct_card [OF assms(2)] by simp
  have mem: "p \<in> set (simple_paths (catalog U phi st obliquity) (Suc (Suc (Suc (Suc (Suc 0))))) [] (hd p))"
    using simple_paths_complete [OF assms _ len, of "[]"] by simp
  have "p \<noteq> []" using assms(1) by auto
  then have "hd p < 5" using range by (cases p) auto
  from less_5_cases [OF this]
  have "list_all (\<lambda>q. discovered_path (catalog U phi st obliquity) (hd q) (last q) = Some q)
     (simple_paths (catalog U phi st obliquity) (Suc (Suc (Suc (Suc (Suc 0))))) [] (hd p))"
    by (elim disjE) (simp_all only: simple_paths_catalog_discovered)
  with mem show ?thesis
    by (simp only: list_all_iff)
qed

lemma shortest_path_catalog_unique:
  assumes p: "is_path (catalog U phi st obliquity) p"
    and least: "\<And>q. is_path (catalog U phi st obliquity) q \<Longrightarrow> hd q = hd p \<Longrightarrow> last q = last p
                 \<Longrightarrow> length p \<le> length q"
  shows "discovered_path (catalog U phi st obliquity) (hd p) (last p) = Some p"
proof -
  have "p \<noteq> []" using p by auto
  then have "hd p \<in> set p" and "last p \<in> set p" by simp_all
  then have "hd p < 5" and "last p < 5"
    using is_path_catalog_range [OF p] by auto
  then obtain q where q: "discovered_path (catalog U phi st obliquity) (hd p) (last p) = Some q"
      "is_path (catalog U phi st obliquity) q" "hd q = hd p" "last q = last p"
    using discovered_path_catalog_props [of "hd p" "last p" U phi st obliquity] by blast
  have "length p \<le> length q"
    using least [OF q(2,3,4)] .
  then have "distinct p"
    using shortest_path_catalog_distinct [OF p] q(1) by simp
  then show ?thesis
    by (rule simple_path_catalog_unique [OF p])
qed

section \<open>Graphs that store the out-edges in another order\<close>

lemma find_fst_map_of:
  "find (\<lambda>e. fst e = b) xs = map_option (Pair b) (map_of xs b)"
  by (induction xs) auto

lemma find_fst_reordered:
  assumes "mset ys = mset xs" and "distinct (map fst xs)"
  shows "find (\<lambda>e. fst e = b) ys = find (\<lambda>e. fst e = b) xs"
proof -
  have "mset (map fst ys) = mset (map fst xs)"
    using assms(1) by simp
  then have "distinct (map fst ys)"
    using assms(2) mset_eq_imp_distinct_iff by blast
  moreover have "set ys = set xs"
    using assms(1) mset_eq_setD by blast
  ultimately have "map_of ys = map_of xs"
    using assms(2) map_of_inject_set by blast
  then show ?thesis
    by (simp add: find_fst_map_of)
qed

lemma permutations_of_two:
  assumes "mset ys = mset [a, b]" and "distinct [a, b]"
  shows "ys = [a, b] \<or> ys = [b, a]"
proof -
  have "length ys = 2"
    using mset_eq_length [OF assms(1)] by simp
  then obtain x y where ys: "ys = [x, y]"
    by (auto simp: length_Suc_conv eval_nat_numeral)
  have s: "set ys = {a, b}"
    using mset_eq_setD [OF assms(1)] by simp
  have d: "distinct ys"
    using assms mset_eq_imp_distinct_iff by blast
  from s have "x \<in> {a, b}" "y \<in> {a, b}"
    unfolding ys by auto
  with d show ?thesis
    unfolding ys by auto
qed

lemma permutations_of_three:
  assumes "mset ys = mset [a, b, c]" and "distinct [a, b, c]"
  shows "ys = [a, b, c] \<or> ys = [a, c, b] \<or> ys = [b, a, c] \<or> ys = [b, c, a] \<or>
         ys = [c, a, b] \<or> ys = [c, b, a]"
proof -
  have "length ys = 3"
    using mset_eq_length [OF assms(1)] by simp
  then obtain x y z where ys: "ys = [x, y, z]"
    by (auto simp: length_Suc_conv eval_nat_numeral)
  have s: "set ys = {a, b, c}"
    using mset_eq_setD [OF assms(1)] by simp
  have d: "distinct ys"
    using assms mset_eq_imp_distinct_iff by blast
  from s have "x \<in> {a, b, c}" "y \<in> {a, b, c}" "z \<in> {a, b, c}"
    unfolding ys by auto
  with d show ?thesis
    unfolding ys by auto
qed

lemma bfs_reordered:
  assumes len: "length G' = 5"
    and o0: "out_edges 0 G' = [(Suc 0, x01)]"
    and o1: "out_edges (Suc 0) G' = [(0, x10), (2, x12)] \<or>
             out_edges (Suc 0) G' = [(2, x12), (0, x10)]"
    and o2: "out_edges 2 G' = [(Suc 0, x21), (3, x23), (4, x24)] \<or>
             out_edges 2 G' = [(Suc 0, x21), (4, x24), (3, x23)] \<or>
             out_edges 2 G' = [(3, x23), (Suc 0, x21), (4, x24)] \<or>
             out_edges 2 G' = [(3, x23), (4, x24), (Suc 0, x21)] \<or>
             out_edges 2 G' = [(4, x24), (Suc 0, x21), (3, x23)] \<or>
             out_edges 2 G' = [(4, x24), (3, x23), (Suc 0, x21)]"
    and o3: "out_edges 3 G' = [(2, x32)]"
    and o4: "out_edges 4 G' = [(2, x42)]"
  shows "breadth_first_search G' 0 ((replicate graph_size 0)[0 := 0]) = [0, 0, 1, 2, 2] \<and>
         breadth_first_search G' (Suc 0) ((replicate graph_size 0)[Suc 0 := Suc 0]) = [1, 1, 1, 2, 2] \<and>
         breadth_first_search G' 2 ((replicate graph_size 0)[2 := 2]) = [1, 2, 2, 2, 2] \<and>
         breadth_first_search G' 3 ((replicate graph_size 0)[3 := 3]) = [1, 2, 3, 3, 2] \<and>
         breadth_first_search G' 4 ((replicate graph_size 0)[4 := 4]) = [1, 2, 4, 2, 4]"
  using o1 o2
  by (elim disjE; simp add: bfs_eval breadth_first_search_def len o0 o3 o4)

lemma reordered_length: "edge_reordering G G' \<Longrightarrow> length G' = length G"
  by (simp add: edge_reordering_def)

lemma reordered_out_edges:
  "edge_reordering G G' \<Longrightarrow> mset (out_edges u G') = mset (out_edges u G)"
  by (auto simp: edge_reordering_def list_all_iff out_edges_def)

lemma reordered_vertex_property:
  "edge_reordering G G' \<Longrightarrow> v < length G \<Longrightarrow> vertex_property G' v = vertex_property G v"
  by (auto simp: edge_reordering_def list_all_iff vertex_property_def)

lemma find_vertex_same_names:
  "(\<And>v. v \<in> set vs \<Longrightarrow> vertex_property G' v = vertex_property G v) \<Longrightarrow>
   find_vertex G' name vs = find_vertex G name vs"
  by (induction vs) auto

lemma find_vertex_reordered:
  assumes "edge_reordering G G'"
  shows "find_vertex G' name (vertices G') = find_vertex G name (vertices G)"
proof -
  have "vertices G' = vertices G"
    using reordered_length [OF assms] by (simp add: vertices_def)
  moreover have "find_vertex G' name (vertices G) = find_vertex G name (vertices G)"
    by (rule find_vertex_same_names) (simp add: vertices_def reordered_vertex_property [OF assms])
  ultimately show ?thesis by simp
qed

lemma edge_reordered:
  assumes "edge_reordering G G'" and "distinct (map fst (out_edges a G))"
  shows "edge a b G' = edge a b G"
  using find_fst_reordered [OF reordered_out_edges [OF assms(1)] assms(2)]
  by (simp add: edge_def)

lemma multiply_same_edges:
  "(\<And>a b. edge a b G' = edge a b G) \<Longrightarrow> multiply U G' p v = multiply U G p v"
proof (induction U G p v rule: multiply.induct)
  case (1 U G a b rest ans)
  then show ?case by (simp split: option.splits)
qed simp_all

lemma bfs_catalog_reordered:
  assumes "edge_reordering (catalog U phi st obliquity) G'" and "s < 5"
  shows "breadth_first_search G' s ((replicate graph_size 0)[s := s])
           = breadth_first_search (catalog U phi st obliquity) s ((replicate graph_size 0)[s := s])"
proof -
  note m = reordered_out_edges [OF assms(1)]
  have len: "length G' = 5"
    using reordered_length [OF assms(1)] by (simp add: length_catalog)
  have o0: "out_edges 0 G' =
      [(Suc 0, \<lparr>edge_label = ''Horizon to Equatorial HA Dec'', conv_matrix = ha_dec_horizon U phi\<rparr>)]"
    using m [of 0] by (simp add: out_edges_catalog)
  have o3: "out_edges 3 G' =
      [(2, \<lparr>edge_label = ''Ecliptic to Equatorial RA Dec'', conv_matrix = ecliptic_to_ra_dec U obliquity\<rparr>)]"
    using m [of 3] by (simp add: out_edges_catalog)
  have o4: "out_edges 4 G' =
      [(2, \<lparr>edge_label = ''Galactic to Equatorial RA Dec'', conv_matrix = galactic_to_ra_dec U\<rparr>)]"
    using m [of 4] by (simp add: out_edges_catalog)
  have m1: "mset (out_edges (Suc 0) G') = mset
      [(0, \<lparr>edge_label = ''Equatorial HA Dec to Horizon'', conv_matrix = ha_dec_horizon U phi\<rparr>),
       (2, \<lparr>edge_label = ''Equatorial HA Dec to Equatorial RA Dec'', conv_matrix = ha_dec_ra_dec U st\<rparr>)]"
    using m [of "Suc 0"] by (simp only: out_edges_catalog)
  have m2: "mset (out_edges 2 G') = mset
      [(Suc 0, \<lparr>edge_label = ''Equatorial RA Dec to Equatorial HA Dec'', conv_matrix = ha_dec_ra_dec U st\<rparr>),
       (3, \<lparr>edge_label = ''Equatorial RA Dec to Ecliptic'', conv_matrix = ra_dec_to_ecliptic U obliquity\<rparr>),
       (4, \<lparr>edge_label = ''Equatorial RA Dec to Galactic'', conv_matrix = ra_dec_to_galactic U\<rparr>)]"
    using m [of 2] by (simp only: out_edges_catalog One_nat_def)
  have o1: "out_edges (Suc 0) G' =
        [(0, \<lparr>edge_label = ''Equatorial HA Dec to Horizon'', conv_matrix = ha_dec_horizon U phi\<rparr>),
         (2, \<lparr>edge_label = ''Equatorial HA Dec to Equatorial RA Dec'', conv_matrix = ha_dec_ra_dec U st\<rparr>)] \<or>
      out_edges (Suc 0) G' =
        [(2, \<lparr>edge_label = ''Equatorial HA Dec to Equatorial RA Dec'', conv_matrix = ha_dec_ra_dec U st\<rparr>),
         (0, \<lparr>edge_label = ''Equatorial HA Dec to Horizon'', conv_matrix = ha_dec_horizon U phi\<rparr>)]"
    by (rule permutations_of_two [OF m1]) simp
  have o2: "out_edges 2 G' = [(Suc 0, \<lparr>edge_label = ''Equatorial RA Dec to Equatorial HA Dec'', conv_matrix = ha_dec_ra_dec U st\<rparr>), (3, \<lparr>edge_label = ''Equatorial RA Dec to Ecliptic'', conv_matrix = ra_dec_to_ecliptic U obliquity\<rparr>), (4, \<lparr>edge_label = ''Equatorial RA Dec to Galactic'', conv_matrix = ra_dec_to_galactic U\<rparr>)] \<or>
      out_edges 2 G' = [(Suc 0, \<lparr>edge_label = ''Equatorial RA Dec to Equatorial HA Dec'', conv_matrix = ha_dec_ra_dec U st\<rparr>), (4, \<lparr>edge_label = ''Equatorial RA Dec to Galactic'', conv_matrix = ra_dec_to_galactic U\<rparr>), (3, \<lparr>edge_label = ''Equatorial RA Dec to Ecliptic'', conv_matrix = ra_dec_to_ecliptic U obliquity\<rparr>)] \<or>
      out_edges 2 G' = [(3, \<lparr>edge_label = ''Equatorial RA Dec to Ecliptic'', conv_matrix = ra_dec_to_ecliptic U obliquity\<rparr>), (Suc 0, \<lparr>edge_label = ''Equatorial RA Dec to Equatorial HA Dec'', conv_matrix = ha_dec_ra_dec U st\<rparr>), (4, \<lparr>edge_label = ''Equatorial RA Dec to Galactic'', conv_matrix = ra_dec_to_galactic U\<rparr>)] \<or>
      out_edges 2 G' = [(3, \<lparr>edge_label = ''Equatorial RA Dec to Ecliptic'', conv_matrix = ra_dec_to_ecliptic U obliquity\<rparr>), (4, \<lparr>edge_label = ''Equatorial RA Dec to Galactic'', conv_matrix = ra_dec_to_galactic U\<rparr>), (Suc 0, \<lparr>edge_label = ''Equatorial RA Dec to Equatorial HA Dec'', conv_matrix = ha_dec_ra_dec U st\<rparr>)] \<or>
      out_edges 2 G' = [(4, \<lparr>edge_label = ''Equatorial RA Dec to Galactic'', conv_matrix = ra_dec_to_galactic U\<rparr>), (Suc 0, \<lparr>edge_label = ''Equatorial RA Dec to Equatorial HA Dec'', conv_matrix = ha_dec_ra_dec U st\<rparr>), (3, \<lparr>edge_label = ''Equatorial RA Dec to Ecliptic'', conv_matrix = ra_dec_to_ecliptic U obliquity\<rparr>)] \<or>
      out_edges 2 G' = [(4, \<lparr>edge_label = ''Equatorial RA Dec to Galactic'', conv_matrix = ra_dec_to_galactic U\<rparr>), (3, \<lparr>edge_label = ''Equatorial RA Dec to Ecliptic'', conv_matrix = ra_dec_to_ecliptic U obliquity\<rparr>), (Suc 0, \<lparr>edge_label = ''Equatorial RA Dec to Equatorial HA Dec'', conv_matrix = ha_dec_ra_dec U st\<rparr>)]"
    by (rule permutations_of_three [OF m2]) simp
  from bfs_reordered [OF len o0 o1 o2 o3 o4] less_5_cases [OF assms(2)] show ?thesis
    by (elim disjE) (simp_all add: bfs_catalog)
qed

lemma convert_in_catalog_reordered:
  assumes "edge_reordering (catalog U phi st obliquity) G'"
  shows "convert_in U G' src dest c = convert_in U (catalog U phi st obliquity) src dest c"
proof -
  let ?G = "catalog U phi st obliquity"
  note fv = find_vertex_reordered [OF assms]
  have e: "\<And>a b. edge a b G' = edge a b ?G"
    by (rule edge_reordered [OF assms distinct_targets_catalog])
  show ?thesis
  proof (cases "find_vertex ?G src (vertices ?G)")
    case None
    then show ?thesis by (simp add: convert_in_def fv)
  next
    case s: (Some s)
    show ?thesis
    proof (cases "find_vertex ?G dest (vertices ?G)")
      case None
      then show ?thesis by (simp add: convert_in_def fv s)
    next
      case d: (Some d)
      have "s < 5"
        using s by (rule find_vertex_catalog_range)
      then show ?thesis
        by (simp add: convert_in_def fv s d bfs_catalog_reordered [OF assms] multiply_same_edges [OF e]
            split: option.splits)
    qed
  qed
qed

lemma reversed_out_edges_reordering: "edge_reordering G (reversed_out_edges G)"
  by (simp add: edge_reordering_def reversed_out_edges_def list_all_iff)

section \<open>Properties of \<open>convert\<close>, of the catalog and of the setters\<close>

subsection \<open>Composition along the discovered path\<close>

text \<open>
  Claim C1. For registered source and destination names and every input, \<open>convert\<close>
  resolves the two names, discovers a path of the catalog from the source vertex to the
  destination vertex, and returns the input's column vector multiplied from the left,
  for each consecutive pair \<open>(a, b)\<close> of that path taken from the source to the
  destination, by the matrix stored on the edge from \<open>a\<close> to \<open>b\<close>.
\<close>

theorem convert_composes_along_path:
  assumes "src \<in> set (frame_names (catalog U phi st obliquity))"
    and "dest \<in> set (frame_names (catalog U phi st obliquity))"
  shows "\<exists>s d path.
           find_vertex (catalog U phi st obliquity) src (vertices (catalog U phi st obliquity)) = Some s \<and>
           find_vertex (catalog U phi st obliquity) dest (vertices (catalog U phi st obliquity)) = Some d \<and>
           discovered_path (catalog U phi st obliquity) s d = Some path \<and>
           is_path (catalog U phi st obliquity) path \<and> hd path = s \<and> last path = d \<and>
           convert U src dest phi st obliquity c =
             Some (Inr (foldl (\<lambda>vec (a, b).
                           prod_matrix U (conv_matrix (the (edge a b (catalog U phi st obliquity)))) vec)
                         (column_vector U (fst c) (snd c)) (zip path (tl path))))"
proof -
  let ?G = "catalog U phi st obliquity"
  obtain s where s: "find_vertex ?G src (vertices ?G) = Some s"
    using find_vertex_registered [OF assms(1)] by blast
  obtain d where d: "find_vertex ?G dest (vertices ?G) = Some d"
    using find_vertex_registered [OF assms(2)] by blast
  have "s < 5" and "d < 5"
    using s d by (auto dest: find_vertex_catalog_range)
  then obtain p where p: "discovered_path ?G s d = Some p" "is_path ?G p" "hd p = s" "last p = d"
    using discovered_path_catalog_props [of s d U phi st obliquity] by blast
  have "convert U src dest phi st obliquity c
          = Some (multiply U ?G p (column_vector U (fst c) (snd c)))"
    by (simp add: convert_def convert_in_discovered_path [OF s d] p(1))
  with s d p show ?thesis
    by (simp add: multiply_along_path)
qed

theorem convert_composes_along_path_witness:
  "''Horizon'' \<in> set (frame_names (catalog sample_utility 0 1 1)) \<and>
   ''Ecliptic'' \<in> set (frame_names (catalog sample_utility 0 1 1)) \<and>
   convert sample_utility ''Horizon'' ''Ecliptic'' 0 1 1 (3, 5) = Some (Inr [[8], [11]])"
proof -
  have h1: "''Horizon'' \<in> set (frame_names (catalog sample_utility 0 1 1))"
    and h2: "''Ecliptic'' \<in> set (frame_names (catalog sample_utility 0 1 1))"
    by (simp_all add: frame_names_catalog)
  show ?thesis
    using h1 h2 convert_composes_along_path [OF h1 h2, of "(3, 5)"]
    by (auto simp: find_vertex_catalog discovered_path_catalog edge_catalog
        sample_utility_def sample_prod_def)
qed

subsection \<open>The discovered path is a shortest path\<close>

text \<open>
  Claim C2. For registered source and destination names, the path that \<open>convert\<close>
  discovers, the one along which it multiplies, is a path of the catalog from the source
  vertex to the destination vertex, and no path of the catalog between these two
  vertices has fewer edges. From Horizon to Ecliptic it is Horizon, Equatorial_HA_Dec,
  Equatorial_RA_Dec, Ecliptic, which has three edges, and \<open>convert\<close> applies the three
  matrices of these edges in this order.
\<close>

theorem discovered_path_is_shortest:
  "(\<forall>src dest s d p.
      find_vertex (catalog U phi st obliquity) src (vertices (catalog U phi st obliquity)) = Some s \<and>
      find_vertex (catalog U phi st obliquity) dest (vertices (catalog U phi st obliquity)) = Some d \<and>
      is_path (catalog U phi st obliquity) p \<and> hd p = s \<and> last p = d \<longrightarrow>
      (\<exists>path. discovered_path (catalog U phi st obliquity) s d = Some path \<and>
              is_path (catalog U phi st obliquity) path \<and> hd path = s \<and> last path = d \<and>
              convert U src dest phi st obliquity c =
                Some (Inr (foldl (\<lambda>vec (a, b).
                              prod_matrix U (conv_matrix (the (edge a b (catalog U phi st obliquity)))) vec)
                            (column_vector U (fst c) (snd c)) (zip path (tl path)))) \<and>
              length path - 1 \<le> length p - 1)) \<and>
   find_vertex (catalog U phi st obliquity) ''Horizon'' (vertices (catalog U phi st obliquity)) = Some 0 \<and>
   find_vertex (catalog U phi st obliquity) ''Ecliptic'' (vertices (catalog U phi st obliquity)) = Some 3 \<and>
   discovered_path (catalog U phi st obliquity) 0 3 = Some [0, 1, 2, 3] \<and>
   convert U ''Horizon'' ''Ecliptic'' phi st obliquity c =
     Some (Inr (prod_matrix U (ra_dec_to_ecliptic U obliquity)
                 (prod_matrix U (ha_dec_ra_dec U st)
                   (prod_matrix U (ha_dec_horizon U phi) (column_vector U (fst c) (snd c)))))) \<and>
   length [0, 1, 2, 3 :: nat] - 1 = 3"
proof -
  let ?G = "catalog U phi st obliquity"
  let ?along = "\<lambda>path. foldl (\<lambda>vec (a, b). prod_matrix U (conv_matrix (the (edge a b ?G))) vec)
      (column_vector U (fst c) (snd c)) (zip path (tl path))"
  have "\<exists>path. discovered_path ?G s d = Some path \<and> is_path ?G path \<and> hd path = s \<and>
          last path = d \<and> convert U src dest phi st obliquity c = Some (Inr (?along path)) \<and>
          length path - 1 \<le> length p - 1"
    if s: "find_vertex ?G src (vertices ?G) = Some s"
      and d: "find_vertex ?G dest (vertices ?G) = Some d"
      and p: "is_path ?G p" "hd p = s" "last p = d"
    for src dest s d p
  proof -
    have "s < 5" and "d < 5"
      using s d by (auto dest: find_vertex_catalog_range)
    then obtain path where path: "discovered_path ?G s d = Some path" "is_path ?G path"
        "hd path = s" "last path = d"
      using discovered_path_catalog_props [of s d U phi st obliquity] by blast
    have "length path \<le> length p"
      using discovered_path_catalog_le [OF p(1)] p(2,3) path(1) by simp
    moreover have "convert U src dest phi st obliquity c = Some (Inr (?along path))"
      by (simp add: convert_def convert_in_discovered_path [OF s d] path(1)
          multiply_along_path [OF path(2)])
    ultimately show ?thesis
      using path by auto
  qed
  then have "\<forall>src dest s d p.
      find_vertex ?G src (vertices ?G) = Some s \<and> find_vertex ?G dest (vertices ?G) = Some d \<and>
      is_path ?G p \<and> hd p = s \<and> last p = d \<longrightarrow>
      (\<exists>path. discovered_path ?G s d = Some path \<and> is_path ?G path \<and> hd path = s \<and>
              last path = d \<and> convert U src dest phi st obliquity c = Some (Inr (?along path)) \<and>
              length path - 1 \<le> length p - 1)"
    by blast
  moreover have "find_vertex ?G ''Horizon'' (vertices ?G) = Some 0"
    and "find_vertex ?G ''Ecliptic'' (vertices ?G) = Some 3"
    and "discovered_path ?G 0 3 = Some [0, 1, 2, 3]"
    by (simp_all add: find_vertex_catalog discovered_path_catalog)
  moreover have "convert U ''Horizon'' ''Ecliptic'' phi st obliquity c =
     Some (Inr (prod_matrix U (ra_dec_to_ecliptic U obliquity)
                 (prod_matrix U (ha_dec_ra_dec U st)
                   (prod_matrix U (ha_dec_horizon U phi) (column_vector U (fst c) (snd c))))))"
    by (simp add: convert_def
        convert_in_discovered_path [OF find_vertex_catalog(1) find_vertex_catalog(4)]
        discovered_path_catalog edge_catalog)
  ultimately show ?thesis by simp
qed

theorem discovered_path_is_shortest_witness:
  "find_vertex (catalog sample_utility 2 3 (- 4)) ''Horizon''
     (vertices (catalog sample_utility 2 3 (- 4))) = Some 0 \<and>
   find_vertex (catalog sample_utility 2 3 (- 4)) ''Galactic''
     (vertices (catalog sample_utility 2 3 (- 4))) = Some 4 \<and>
   is_path (catalog sample_utility 2 3 (- 4)) [0, 1, 2, 3, 2, 4] \<and>
   (\<exists>path. discovered_path (catalog sample_utility 2 3 (- 4)) 0 4 = Some path \<and>
           is_path (catalog sample_utility 2 3 (- 4)) path \<and> hd path = 0 \<and> last path = 4 \<and>
           convert sample_utility ''Horizon'' ''Galactic'' 2 3 (- 4) (3, 5) =
             Some (Inr (foldl (\<lambda>vec (a, b). prod_matrix sample_utility
                                  (conv_matrix (the (edge a b (catalog sample_utility 2 3 (- 4))))) vec)
                          (column_vector sample_utility (fst (3::int, 5::int)) (snd (3::int, 5::int)))
                          (zip path (tl path)))) \<and>
           length path - 1 \<le> 5) \<and>
   convert sample_utility ''Horizon'' ''Ecliptic'' 2 3 (- 4) (3, 5) = Some (Inr [[20], [- 77]])"
proof -
  note t = discovered_path_is_shortest [of sample_utility 2 3 "- 4" "(3, 5)"]
  have h1: "find_vertex (catalog sample_utility 2 3 (- 4)) ''Horizon''
      (vertices (catalog sample_utility 2 3 (- 4))) = Some 0"
    and h2: "find_vertex (catalog sample_utility 2 3 (- 4)) ''Galactic''
      (vertices (catalog sample_utility 2 3 (- 4))) = Some 4"
    and h3: "is_path (catalog sample_utility 2 3 (- 4)) [0, 1, 2, 3, 2, 4]"
    and h4: "hd [0, 1, 2, 3, 2, 4 :: nat] = 0" and h5: "last [0, 1, 2, 3, 2, 4 :: nat] = 4"
    by (simp_all add: find_vertex_catalog edge_catalog num_vertices_def length_catalog)
  have "\<exists>path. discovered_path (catalog sample_utility 2 3 (- 4)) 0 4 = Some path \<and>
           is_path (catalog sample_utility 2 3 (- 4)) path \<and> hd path = 0 \<and> last path = 4 \<and>
           convert sample_utility ''Horizon'' ''Galactic'' 2 3 (- 4) (3, 5) =
             Some (Inr (foldl (\<lambda>vec (a, b). prod_matrix sample_utility
                                  (conv_matrix (the (edge a b (catalog sample_utility 2 3 (- 4))))) vec)
                          (column_vector sample_utility (fst (3::int, 5::int)) (snd (3::int, 5::int)))
                          (zip path (tl path)))) \<and>
           length path - 1 \<le> length [0, 1, 2, 3, 2, 4 :: nat] - 1"
    using t h1 h2 h3 h4 h5 by blast
  moreover have "length [0, 1, 2, 3, 2, 4 :: nat] - 1 = 5"
    by simp
  ultimately have c1: "\<exists>path. discovered_path (catalog sample_utility 2 3 (- 4)) 0 4 = Some path \<and>
           is_path (catalog sample_utility 2 3 (- 4)) path \<and> hd path = 0 \<and> last path = 4 \<and>
           convert sample_utility ''Horizon'' ''Galactic'' 2 3 (- 4) (3, 5) =
             Some (Inr (foldl (\<lambda>vec (a, b). prod_matrix sample_utility
                                  (conv_matrix (the (edge a b (catalog sample_utility 2 3 (- 4))))) vec)
                          (column_vector sample_utility (fst (3::int, 5::int)) (snd (3::int, 5::int)))
                          (zip path (tl path)))) \<and>
           length path - 1 \<le> 5"
    by (simp only:)
  have c2: "convert sample_utility ''Horizon'' ''Ecliptic'' 2 3 (- 4) (3, 5) = Some (Inr [[20], [- 77]])"
    using t by (simp add: sample_utility_def sample_prod_def)
  from h1 h2 h3 c1 c2 show ?thesis
    by (intro conjI)
qed

subsection \<open>Round trip over a directly connected pair\<close>




subsection \<open>The zero-length path\<close>

text \<open>
  Claim C4. For every frame name \<open>X\<close> registered in the catalog and every input,
  \<open>convert\<close> from \<open>X\<close> to \<open>X\<close> returns the column vector of the input as it was built:
  the path has no edge and no matrix is applied.
\<close>

theorem convert_same_frame_identity:
  "X \<in> set (frame_names (catalog U phi st obliquity)) \<Longrightarrow>
   convert U X X phi st obliquity c = Some (Inr (column_vector U (fst c) (snd c)))"
  unfolding convert_def by (rule convert_in_same_frame)

theorem convert_same_frame_identity_witness:
  "''Galactic'' \<in> set (frame_names (catalog sample_utility 0 1 1)) \<and>
   convert sample_utility ''Galactic'' ''Galactic'' 0 1 1 (3, 5) = Some (Inr [[3], [5]])"
proof -
  have h: "''Galactic'' \<in> set (frame_names (catalog sample_utility 0 1 1))"
    by (simp add: frame_names_catalog)
  show ?thesis
    using h convert_same_frame_identity [OF h, of "(3, 5)"]
    by (simp add: sample_utility_def)
qed

subsection \<open>Unknown frame names\<close>

text \<open>
  Claim C5. When the source name is not registered in the catalog, \<open>convert\<close> throws
  a range error whose message is \<open>Not found\<close> followed by the source name, whatever
  the destination name is (also when that is unknown too: the source is resolved
  first). When the source name is registered and the destination name is not, the
  message names the destination.
\<close>

theorem convert_frame_not_found:
  "(src \<notin> set (frame_names (catalog U phi st obliquity)) \<longrightarrow>
      convert U src dest phi st obliquity c = Some (Inl (Range_error (''Not found '' @ src)))) \<and>
   (src \<in> set (frame_names (catalog U phi st obliquity)) \<and>
    dest \<notin> set (frame_names (catalog U phi st obliquity)) \<longrightarrow>
      convert U src dest phi st obliquity c = Some (Inl (Range_error (''Not found '' @ dest))))"
  unfolding convert_def
  using convert_in_unknown_src convert_in_unknown_dest by blast

theorem convert_frame_not_found_witness:
  "''Lunar'' \<notin> set (frame_names (catalog sample_utility 0 1 1)) \<and>
   ''Solar'' \<notin> set (frame_names (catalog sample_utility 0 1 1)) \<and>
   ''Galactic'' \<in> set (frame_names (catalog sample_utility 0 1 1)) \<and>
   convert sample_utility ''Lunar'' ''Solar'' 0 1 1 (3, 5) = Some (Inl (Range_error ''Not found Lunar'')) \<and>
   convert sample_utility ''Lunar'' ''Galactic'' 0 1 1 (3, 5) = Some (Inl (Range_error ''Not found Lunar'')) \<and>
   convert sample_utility ''Galactic'' ''Solar'' 0 1 1 (3, 5) = Some (Inl (Range_error ''Not found Solar''))"
  using convert_frame_not_found [of "''Lunar''" sample_utility 0 1 1 "''Solar''" "(3, 5)"]
        convert_frame_not_found [of "''Lunar''" sample_utility 0 1 1 "''Galactic''" "(3, 5)"]
        convert_frame_not_found [of "''Galactic''" sample_utility 0 1 1 "''Solar''" "(3, 5)"]
  by (simp add: frame_names_catalog)

subsection \<open>The shape of the catalog\<close>

text \<open>
  Claim C8. Every call of \<open>convert\<close> builds a graph of exactly five vertices, named
  Horizon, Equatorial_HA_Dec, Equatorial_RA_Dec, Ecliptic and Galactic in this order,
  and exactly eight directed edges: the four relationships Horizon/Equatorial_HA_Dec,
  Equatorial_HA_Dec/Equatorial_RA_Dec, Equatorial_RA_Dec/Ecliptic and
  Equatorial_RA_Dec/Galactic, each in both directions. There is no edge in either
  direction between Ecliptic and Galactic, between Horizon and Ecliptic, or between
  Horizon and Galactic.
\<close>

theorem catalog_vertices_and_edges:
  "num_vertices (catalog U phi st obliquity) = 5 \<and>
   frame_names (catalog U phi st obliquity) =
     [''Horizon'', ''Equatorial_HA_Dec'', ''Equatorial_RA_Dec'', ''Ecliptic'', ''Galactic''] \<and>
   num_edges (catalog U phi st obliquity) = 8 \<and>
   edges (catalog U phi st obliquity) =
     [(0, 1), (1, 0), (1, 2), (2, 1), (2, 3), (2, 4), (3, 2), (4, 2)] \<and>
   edge 3 4 (catalog U phi st obliquity) = None \<and>
   edge 4 3 (catalog U phi st obliquity) = None \<and>
   edge 0 3 (catalog U phi st obliquity) = None \<and>
   edge 3 0 (catalog U phi st obliquity) = None \<and>
   edge 0 4 (catalog U phi st obliquity) = None \<and>
   edge 4 0 (catalog U phi st obliquity) = None"
  by (simp add: num_vertices_def length_catalog frame_names_catalog num_edges_def edges_def
      vertices_catalog out_edges_catalog edge_def)

subsection \<open>Connectivity and uniqueness of paths\<close>

text \<open>
  Claim C9. The catalog is strongly connected: between any two of its five vertices the
  search from the first reaches the second (it ends black) and \<open>convert\<close> discovers a path
  of the catalog from the first to the second, so that \<open>convert\<close> returns a vector for
  every pair of registered names. The catalog has twice as many directed edges as it has
  vertices less one, no edge twice, no loop, and every edge also in the other direction:
  its undirected skeleton has four edges on five connected vertices and is a tree. Hence
  every path without a repeated vertex, and so every path of least length, is the
  discovered one, and the result of \<open>convert\<close> is the same on every graph that stores the
  out-edges of the vertices in another order.
\<close>

theorem catalog_strongly_connected_tree:
  "(\<forall>s<5. \<forall>d<5. \<exists>p.
      discovered_path (catalog U phi st obliquity) s d = Some p \<and>
      is_path (catalog U phi st obliquity) p \<and> hd p = s \<and> last p = d \<and>
      color (breadth_first_search_state (catalog U phi st obliquity) s
               ((replicate graph_size 0)[s := s])) ! d = Black) \<and>
   (\<forall>src \<in> set (frame_names (catalog U phi st obliquity)).
      \<forall>dest \<in> set (frame_names (catalog U phi st obliquity)).
        \<exists>r. convert U src dest phi st obliquity c = Some (Inr r)) \<and>
   num_edges (catalog U phi st obliquity) = 2 * (num_vertices (catalog U phi st obliquity) - 1) \<and>
   distinct (edges (catalog U phi st obliquity)) \<and>
   (\<forall>e \<in> set (edges (catalog U phi st obliquity)).
      fst e \<noteq> snd e \<and> (snd e, fst e) \<in> set (edges (catalog U phi st obliquity))) \<and>
   (\<forall>p. is_path (catalog U phi st obliquity) p \<and> distinct p \<longrightarrow>
      discovered_path (catalog U phi st obliquity) (hd p) (last p) = Some p) \<and>
   (\<forall>p. is_path (catalog U phi st obliquity) p \<and>
        (\<forall>q. is_path (catalog U phi st obliquity) q \<and> hd q = hd p \<and> last q = last p
              \<longrightarrow> length p \<le> length q) \<longrightarrow>
      discovered_path (catalog U phi st obliquity) (hd p) (last p) = Some p) \<and>
   (\<forall>G' src dest. edge_reordering (catalog U phi st obliquity) G' \<longrightarrow>
      convert_in U G' src dest c = convert U src dest phi st obliquity c)"
proof -
  let ?G = "catalog U phi st obliquity"
  have connected: "\<forall>s<5. \<forall>d<5. \<exists>p. discovered_path ?G s d = Some p \<and> is_path ?G p \<and>
      hd p = s \<and> last p = d \<and>
      color (breadth_first_search_state ?G s ((replicate graph_size 0)[s := s])) ! d = Black"
    using discovered_path_catalog_props [of _ _ U phi st obliquity]
      bfs_color_catalog [of _ _ U phi st obliquity]
    by meson
  have returns: "\<forall>src \<in> set (frame_names ?G). \<forall>dest \<in> set (frame_names ?G).
      \<exists>r. convert U src dest phi st obliquity c = Some (Inr r)"
    by (intro ballI) (rule convert_catalog_returns)
  have count: "num_edges ?G = 2 * (num_vertices ?G - 1)"
    by (simp add: num_edges_def edges_catalog num_vertices_def length_catalog)
  have dist: "distinct (edges ?G)"
    by (simp add: edges_catalog)
  have sym: "\<forall>e \<in> set (edges ?G). fst e \<noteq> snd e \<and> (snd e, fst e) \<in> set (edges ?G)"
    by (simp add: edges_catalog)
  have simple: "\<forall>p. is_path ?G p \<and> distinct p \<longrightarrow> discovered_path ?G (hd p) (last p) = Some p"
    using simple_path_catalog_unique [of U phi st obliquity] by blast
  have shortest: "\<forall>p. is_path ?G p \<and>
        (\<forall>q. is_path ?G q \<and> hd q = hd p \<and> last q = last p \<longrightarrow> length p \<le> length q) \<longrightarrow>
      discovered_path ?G (hd p) (last p) = Some p"
    using shortest_path_catalog_unique [of U phi st obliquity] by blast
  have order: "\<forall>G' src dest. edge_reordering ?G G' \<longrightarrow>
      convert_in U G' src dest c = convert U src dest phi st obliquity c"
    by (simp add: convert_def convert_in_catalog_reordered)
  from connected returns count dist sym simple shortest order show ?thesis
    by (intro conjI)
qed

theorem catalog_strongly_connected_tree_witness:
  "is_path (catalog sample_utility 0 1 1) [3, 2, 4] \<and> distinct [3, 2, 4 :: nat] \<and>
   discovered_path (catalog sample_utility 0 1 1) 3 4 = Some [3, 2, 4] \<and>
   ''Ecliptic'' \<in> set (frame_names (catalog sample_utility 0 1 1)) \<and>
   ''Galactic'' \<in> set (frame_names (catalog sample_utility 0 1 1)) \<and>
   (\<exists>r. convert sample_utility ''Ecliptic'' ''Galactic'' 0 1 1 (3, 5) = Some (Inr r)) \<and>
   edge_reordering (catalog sample_utility 0 1 1) (reversed_out_edges (catalog sample_utility 0 1 1)) \<and>
   convert_in sample_utility (reversed_out_edges (catalog sample_utility 0 1 1))
       ''Ecliptic'' ''Galactic'' (3, 5)
     = convert sample_utility ''Ecliptic'' ''Galactic'' 0 1 1 (3, 5)"
proof -
  note t = catalog_strongly_connected_tree [of sample_utility 0 1 1 "(3, 5)"]
  have h1: "is_path (catalog sample_utility 0 1 1) [3, 2, 4]" and h2: "distinct [3, 2, 4 :: nat]"
    by (simp_all add: edge_catalog num_vertices_def length_catalog)
  have h3: "''Ecliptic'' \<in> set (frame_names (catalog sample_utility 0 1 1))"
    and h4: "''Galactic'' \<in> set (frame_names (catalog sample_utility 0 1 1))"
    by (simp_all add: frame_names_catalog)
  have h5: "edge_reordering (catalog sample_utility 0 1 1)
      (reversed_out_edges (catalog sample_utility 0 1 1))"
    by (rule reversed_out_edges_reordering)
  have "discovered_path (catalog sample_utility 0 1 1) (hd [3, 2, 4]) (last [3, 2, 4]) = Some [3, 2, 4]"
    using t h1 h2 by blast
  then have c1: "discovered_path (catalog sample_utility 0 1 1) 3 4 = Some [3, 2, 4]"
    by simp
  have c2: "\<exists>r. convert sample_utility ''Ecliptic'' ''Galactic'' 0 1 1 (3, 5) = Some (Inr r)"
    using t h3 h4 by blast
  have c3: "convert_in sample_utility (reversed_out_edges (catalog sample_utility 0 1 1))
       ''Ecliptic'' ''Galactic'' (3, 5)
     = convert sample_utility ''Ecliptic'' ''Galactic'' 0 1 1 (3, 5)"
    using t h5 by blast
  from h1 h2 c1 h3 h4 c2 h5 c3 show ?thesis
    by (intro conjI)
qed

subsection \<open>The setters of the spherical equatorial representation\<close>

text \<open>
  Claim C10. Each setter of \<open>spherical_equatorial_representation\<close> writes its own
  coordinate of the point and no other: \<open>set_lat\<close> stores the latitude value and
  leaves the longitude and the distance as they were, \<open>set_lon\<close> leaves the latitude
  and the distance, \<open>set_dist\<close> leaves the latitude and the longitude; the getters of
  the untouched components return what they returned before.
\<close>

theorem setters_touch_own_component:
  "get0 (point (set_lat Q lat r)) = lat_value Q lat \<and>
   get1 (point (set_lat Q lat r)) = get1 (point r) \<and>
   get2 (point (set_lat Q lat r)) = get2 (point r) \<and>
   get_lon Q (set_lat Q lat r) = get_lon Q r \<and>
   get_dist Q (set_lat Q lat r) = get_dist Q r \<and>
   get1 (point (set_lon Q lon r)) = lon_value Q lon \<and>
   get0 (point (set_lon Q lon r)) = get0 (point r) \<and>
   get2 (point (set_lon Q lon r)) = get2 (point r) \<and>
   get_lat Q (set_lon Q lon r) = get_lat Q r \<and>
   get_dist Q (set_lon Q lon r) = get_dist Q r \<and>
   get2 (point (set_dist Q distance r)) = dist_value Q distance \<and>
   get0 (point (set_dist Q distance r)) = get0 (point r) \<and>
   get1 (point (set_dist Q distance r)) = get1 (point r) \<and>
   get_lat Q (set_dist Q distance r) = get_lat Q r \<and>
   get_lon Q (set_dist Q distance r) = get_lon Q r"
  by (simp add: set_lat_def set_lon_def set_dist_def get_lat_def get_lon_def get_dist_def)

end
